theory Spec2Isabelle
  imports Main "HOL-Library.AList" "HOL-Library.Char_ord" "HOL-Library.List_Lexorder"
begin

section \<open>Strings and the runtime's primitives\<close>

text \<open>
  JavaScript strings are modelled as byte strings. Every name the catalog admits is
  ASCII (the date pattern admits digits, hyphens, a dot and ASCII letters only), and
  on ASCII text the operations used below (prefix match, suffix match, substring
  search, comparison by code unit) agree with their byte-wise counterparts.
  A value that may be \<^verbatim>\<open>null\<close> or \<^verbatim>\<open>undefined\<close> is an option.
\<close>

type_synonym js_string = string

text \<open>Truthiness of a string-or-null value: null, undefined and the empty string are falsy.\<close>

definition truthy :: "js_string option \<Rightarrow> bool" where
  "truthy v = (case v of None \<Rightarrow> False | Some s \<Rightarrow> s \<noteq> [])"

text \<open>The operator \<^verbatim>\<open>a || b\<close> on such values.\<close>

definition js_or :: "js_string option \<Rightarrow> js_string option \<Rightarrow> js_string option" where
  "js_or a b = (if truthy a then a else b)"

text \<open>The class \<^verbatim>\<open>\d\<close> of a regular expression without the unicode flag.\<close>

definition is_digit :: "char \<Rightarrow> bool" where
  "is_digit c = (CHR ''0'' \<le> c \<and> c \<le> CHR ''9'')"

text \<open>Case folding of the \<^verbatim>\<open>/i\<close> flag, which on ASCII patterns touches ASCII letters only.\<close>

definition toLowerAscii :: "char \<Rightarrow> char" where
  "toLowerAscii c =
     (case map_of (zip ''ABCDEFGHIJKLMNOPQRSTUVWXYZ'' ''abcdefghijklmnopqrstuvwxyz'') c of
        Some l \<Rightarrow> l | None \<Rightarrow> c)"

text \<open>\<^verbatim>\<open>s.includes(sub)\<close>\<close>

fun includes_str :: "js_string \<Rightarrow> js_string \<Rightarrow> bool" where
  "includes_str [] sub = (sub = [])"
| "includes_str (c # cs) sub = (take (length sub) (c # cs) = sub \<or> includes_str cs sub)"

text \<open>
  \<^verbatim>\<open>s.match(/^(\d{4}-\d{2}-\d{2})/)\<close>: the captured date prefix, or \<open>None\<close>
  when the match is \<^verbatim>\<open>null\<close>.
\<close>

definition dateMatch :: "js_string \<Rightarrow> js_string option" where
  "dateMatch s =
     (let d = take 10 s in
      if length d = 10 \<and> list_all is_digit (take 4 d) \<and> d ! 4 = CHR ''-''
         \<and> list_all is_digit (take 2 (drop 5 d)) \<and> d ! 7 = CHR ''-''
         \<and> list_all is_digit (drop 8 d)
      then Some d else None)"

text \<open>\<^verbatim>\<open>/^\d{4}-\d{2}-\d{2}\.(mp4|webm|jpg|jpeg|png)$/i.test(s)\<close>\<close>

definition datePattern_test :: "js_string \<Rightarrow> bool" where
  "datePattern_test s =
     (case dateMatch s of
        None \<Rightarrow> False
      | Some d \<Rightarrow>
          (case drop 10 s of
             [] \<Rightarrow> False
           | c # ext \<Rightarrow> c = CHR ''.'' \<and>
               map toLowerAscii ext \<in> set [''mp4'', ''webm'', ''jpg'', ''jpeg'', ''png'']))"

text \<open>
  \<^verbatim>\<open>Array.prototype.sort(cmp)\<close>. The comparator returns a number, of which only
  the sign matters. For a comparator that is consistent on the elements, the language
  fixes the result: the stable sorted arrangement, which insertion computes (an
  element goes before the first element it does not compare greater than). The
  catalog's comparator is consistent on what it sorts, names of pairwise different
  dates.
\<close>

fun insert_by :: "('a \<Rightarrow> 'a \<Rightarrow> int) \<Rightarrow> 'a \<Rightarrow> 'a list \<Rightarrow> 'a list" where
  "insert_by cmp x [] = [x]"
| "insert_by cmp x (y # ys) = (if cmp x y \<le> 0 then x # y # ys else y # insert_by cmp x ys)"

definition js_sort :: "('a \<Rightarrow> 'a \<Rightarrow> int) \<Rightarrow> 'a list \<Rightarrow> 'a list" where
  "js_sort cmp xs = foldr (insert_by cmp) xs []"


definition codeUnitCompare :: "js_string \<Rightarrow> js_string \<Rightarrow> int" where
  "codeUnitCompare a b = (if a < b then - 1 else if b < a then 1 else 0)"

section \<open>The clip catalog\<close>

text \<open>
  One entry of \<^verbatim>\<open>response.data.files\<close>, with the fields the listing asks for:
  \<^verbatim>\<open>files(id, name, mimeType, createdTime, modifiedTime)\<close>.
\<close>

record drive_file =
  file_id :: js_string
  name :: js_string
  mimeType :: js_string
  createdTime :: "js_string option"
  modifiedTime :: "js_string option"

text \<open>
  \<^verbatim>\<open>new Date(v || 0)\<close>: the epoch for a falsy operand, else the parsed time in
  milliseconds. The parser of the runtime is the parameter \<open>parseDate\<close>; \<open>None\<close> is
  the invalid date, whose numeric value is NaN.
\<close>

definition newDate :: "(js_string \<Rightarrow> int option) \<Rightarrow> js_string option \<Rightarrow> int option" where
  "newDate parseDate v =
     (case v of None \<Rightarrow> Some 0 | Some s \<Rightarrow> if s = [] then Some 0 else parseDate s)"

text \<open>\<^verbatim>\<open>new Date(file.modifiedTime || file.createdTime || 0)\<close>\<close>

definition clipTime :: "(js_string \<Rightarrow> int option) \<Rightarrow> drive_file \<Rightarrow> int option" where
  "clipTime parseDate f = newDate parseDate (js_or (modifiedTime f) (createdTime f))"

text \<open>\<^verbatim>\<open>a >= b\<close> on two dates: false as soon as one of them is invalid.\<close>

definition time_ge :: "int option \<Rightarrow> int option \<Rightarrow> bool" where
  "time_ge a b = (case (a, b) of (Some x, Some y) \<Rightarrow> y \<le> x | _ \<Rightarrow> False)"

text \<open>The filter of \<^verbatim>\<open>fetchClipsList\<close>: the date pattern, and no thumbnail infix.\<close>

definition admitted :: "drive_file \<Rightarrow> bool" where
  "admitted file = (datePattern_test (name file) \<and> \<not> includes_str (name file) ''.thumb.'')"

text \<open>
  The body of the \<^verbatim>\<open>forEach\<close> over the admitted files. The \<^verbatim>\<open>Map\<close> is an
  association list in insertion order; \<^verbatim>\<open>Map.set\<close> on a key already present
  replaces the value in place, which is what \<^const>\<open>AList.update\<close> does.
\<close>

definition uniqueByDate_step ::
  "(js_string \<Rightarrow> int option) \<Rightarrow> (js_string \<times> drive_file) list \<Rightarrow> drive_file
     \<Rightarrow> (js_string \<times> drive_file) list" where
  "uniqueByDate_step parseDate uniqueByDate file =
     (case dateMatch (name file) of
        None \<Rightarrow> uniqueByDate
      | Some dateKey \<Rightarrow>
          (case map_of uniqueByDate dateKey of
             None \<Rightarrow> AList.update dateKey file uniqueByDate
           | Some existing \<Rightarrow>
               if time_ge (clipTime parseDate file) (clipTime parseDate existing)
               then AList.update dateKey file uniqueByDate
               else uniqueByDate))"

text \<open>\<^verbatim>\<open>response.data.files || []\<close>\<close>

definition files_or_empty :: "drive_file list option \<Rightarrow> drive_file list" where
  "files_or_empty response_files = (case response_files of None \<Rightarrow> [] | Some fs \<Rightarrow> fs)"

text \<open>
  \<^verbatim>\<open>fetchClipsList\<close>, from the listing's answer on: filter, keep one file per
  date, sort by name.
\<close>

definition fetchClipsList ::
  "(js_string \<Rightarrow> js_string \<Rightarrow> int) \<Rightarrow> (js_string \<Rightarrow> int option) \<Rightarrow> drive_file list option
     \<Rightarrow> drive_file list" where
  "fetchClipsList localeCompare parseDate response_files =
     (let files = filter admitted (files_or_empty response_files);
          uniqueByDate = foldl (uniqueByDate_step parseDate) [] files
      in js_sort (\<lambda>a b. localeCompare (name a) (name b)) (map snd uniqueByDate))"

text \<open>
  Specification vocabulary. \<open>latest_for_date stamp files g\<close>: \<open>g\<close> is an admitted
  entry of \<open>files\<close>, at some position \<open>i\<close>, such that no admitted entry of the same
  date has a later timestamp, and every admitted entry of the same date with an
  equal timestamp stands at or before position \<open>i\<close>.
\<close>

definition latest_for_date :: "(drive_file \<Rightarrow> int) \<Rightarrow> drive_file list \<Rightarrow> drive_file \<Rightarrow> bool" where
  "latest_for_date stamp files g =
     (admitted g \<and>
      (\<exists>i<length files. files ! i = g \<and>
         (\<forall>j<length files.
            admitted (files ! j) \<and> dateMatch (name (files ! j)) = dateMatch (name g) \<longrightarrow>
              stamp (files ! j) \<le> stamp g \<and> (stamp (files ! j) = stamp g \<longrightarrow> j \<le> i))))"

text \<open>The loop invariant of the deduplication, after the prefix \<open>pre\<close> of the listing.\<close>

definition catalog_inv ::
  "(drive_file \<Rightarrow> int) \<Rightarrow> drive_file list \<Rightarrow> (js_string \<times> drive_file) list \<Rightarrow> bool" where
  "catalog_inv stamp pre m =
     (distinct (map fst m) \<and>
      (\<forall>k g. map_of m k = Some g \<longrightarrow> dateMatch (name g) = Some k \<and> latest_for_date stamp pre g) \<and>
      (\<forall>f\<in>set pre. admitted f \<longrightarrow> (\<exists>k g. dateMatch (name f) = Some k \<and> map_of m k = Some g)))"

text \<open>
  The listing of the specification's scenario: two files for the first of January,
  the image modified after the video, and one file for the second.
\<close>

definition scenario_files :: "drive_file list" where
  "scenario_files =
     [\<lparr>file_id = ''a1'', name = ''2024-01-01.mp4'', mimeType = ''video/mp4'',
        createdTime = Some ''2024-01-01T08:00:00.000Z'',
        modifiedTime = Some ''2024-01-01T08:00:00.000Z''\<rparr>,
      \<lparr>file_id = ''a2'', name = ''2024-01-01.jpg'', mimeType = ''image/jpeg'',
        createdTime = Some ''2024-01-01T09:00:00.000Z'',
        modifiedTime = Some ''2024-01-01T09:00:00.000Z''\<rparr>,
      \<lparr>file_id = ''a3'', name = ''2024-01-02.png'', mimeType = ''image/png'',
        createdTime = Some ''2024-01-02T08:00:00.000Z'',
        modifiedTime = Some ''2024-01-02T08:00:00.000Z''\<rparr>]"

definition scenario_parseDate :: "js_string \<Rightarrow> int option" where
  "scenario_parseDate =
     map_of [(''2024-01-01T08:00:00.000Z'', 1704096000000),
             (''2024-01-01T09:00:00.000Z'', 1704099600000),
             (''2024-01-02T08:00:00.000Z'', 1704182400000)]"

text \<open>
  A listing with duplicates in every arrangement: the newer file of the first of
  January is listed before the older one; the two files of the second carry the
  same time, one as its modification time and the other, which has none, as its
  creation time; the thumbnail, with a time no parser reads, is not admitted.
  \<open>duplicates_stamp\<close> gives the times of the admitted files in milliseconds.
\<close>

definition duplicates_listing :: "drive_file list" where
  "duplicates_listing =
     [\<lparr>file_id = ''b1'', name = ''2024-01-01.jpg'', mimeType = ''image/jpeg'',
        createdTime = Some ''2024-01-01T08:00:00.000Z'',
        modifiedTime = Some ''2024-01-01T09:00:00.000Z''\<rparr>,
      \<lparr>file_id = ''b2'', name = ''2024-01-01.mp4'', mimeType = ''video/mp4'',
        createdTime = Some ''2024-01-01T08:00:00.000Z'',
        modifiedTime = Some ''2024-01-01T08:00:00.000Z''\<rparr>,
      \<lparr>file_id = ''b3'', name = ''2024-01-02.mp4'', mimeType = ''video/mp4'',
        createdTime = Some ''2024-01-01T08:00:00.000Z'',
        modifiedTime = Some ''2024-01-02T08:00:00.000Z''\<rparr>,
      \<lparr>file_id = ''b4'', name = ''2024-01-02.webm'', mimeType = ''video/webm'',
        createdTime = Some ''2024-01-02T08:00:00.000Z'',
        modifiedTime = None\<rparr>,
      \<lparr>file_id = ''b5'', name = ''2024-01-03.thumb.jpg'', mimeType = ''image/jpeg'',
        createdTime = None,
        modifiedTime = Some ''yesterday''\<rparr>]"

definition duplicates_stamp :: "drive_file \<Rightarrow> int" where
  "duplicates_stamp f =
     (case map_of [(''b1'', 1704099600000), (''b2'', 1704096000000),
                   (''b3'', 1704182400000), (''b4'', 1704182400000)] (file_id f) of
        Some t \<Rightarrow> t
      | None \<Rightarrow> 0)"
section \<open>The encoder's command lines\<close>

text \<open>
  \<^verbatim>\<open>String(n)\<close> and the interpolation of an integer into a template: the decimal
  digits, after a minus sign for a negative number. Counts and indices are natural
  numbers.
\<close>

function digits :: "int \<Rightarrow> js_string" where
  "digits n =
     (if n < 10 then [''0123456789'' ! nat n]
      else digits (n div 10) @ [''0123456789'' ! nat (n mod 10)])"
  by pat_completeness auto
termination
  by (relation "measure nat") auto

declare digits.simps [simp del]

definition String_int :: "int \<Rightarrow> js_string" where
  "String_int n = (if n < 0 then ''-'' @ digits (- n) else digits n)"

definition String_nat :: "nat \<Rightarrow> js_string" where
  "String_nat n = digits (int n)"

text \<open>\<^verbatim>\<open>s.padStart(n, c)\<close> for a one-character filler.\<close>

definition padStart :: "nat \<Rightarrow> char \<Rightarrow> js_string \<Rightarrow> js_string" where
  "padStart n c s = replicate (n - length s) c @ s"

text \<open>\<^verbatim>\<open>xs.join(sep)\<close>\<close>

fun join :: "js_string \<Rightarrow> js_string list \<Rightarrow> js_string" where
  "join sep [] = []"
| "join sep [x] = x"
| "join sep (x # y # ys) = x @ sep @ join sep (y # ys)"

text \<open>\<^verbatim>\<open>s.split(c)\<close> for a one-character separator.\<close>

fun split_on :: "char \<Rightarrow> js_string \<Rightarrow> js_string list" where
  "split_on c [] = [[]]"
| "split_on c (x # xs) =
     (if x = c then [] # split_on c xs
      else (case split_on c xs of [] \<Rightarrow> [[x]] | p # ps \<Rightarrow> (x # p) # ps))"

text \<open>
  \<^verbatim>\<open>path.join\<close> of two arguments, on POSIX (the service runs in a Linux
  container). Empty arguments are skipped, the rest are joined by a slash and the
  result is normalized: empty and \<^verbatim>\<open>.\<close> segments are dropped, a
  \<^verbatim>\<open>..\<close> segment removes the segment before it, or stays when there is none
  and the path is relative; a leading and a trailing slash are kept.
\<close>

definition normalize_segment :: "bool \<Rightarrow> js_string list \<Rightarrow> js_string \<Rightarrow> js_string list" where
  "normalize_segment allowAboveRoot res seg =
     (if seg = [] \<or> seg = ''.'' then res
      else if seg = ''..'' then
        (if res \<noteq> [] \<and> last res \<noteq> ''..'' then butlast res
         else if allowAboveRoot then res @ [''..'']
         else res)
      else res @ [seg])"

definition normalizeString :: "js_string \<Rightarrow> bool \<Rightarrow> js_string" where
  "normalizeString path allowAboveRoot =
     join ''/'' (foldl (normalize_segment allowAboveRoot) [] (split_on (CHR ''/'') path))"

definition path_normalize :: "js_string \<Rightarrow> js_string" where
  "path_normalize path =
     (if path = [] then ''.''
      else
        (let isAbsolute = (hd path = CHR ''/'');
             trailingSeparator = (last path = CHR ''/'');
             res = normalizeString path (\<not> isAbsolute)
         in if res = [] then (if isAbsolute then ''/'' else if trailingSeparator then ''./'' else ''.'')
            else (if isAbsolute then ''/'' else []) @ res @ (if trailingSeparator then ''/'' else [])))"

definition path_join :: "js_string \<Rightarrow> js_string \<Rightarrow> js_string" where
  "path_join dir file =
     (case filter (\<lambda>arg. arg \<noteq> []) [dir, file] of
        [] \<Rightarrow> ''.''
      | args \<Rightarrow> path_normalize (join ''/'' args))"

text \<open>
  The alternative matched by \<^verbatim>\<open>/\.(e1|e2|...)$/i\<close> in \<open>s\<close>, if any. The
  alternatives used below never end one another, so at most one of them matches.
\<close>

definition ext_match :: "js_string list \<Rightarrow> js_string \<Rightarrow> js_string option" where
  "ext_match exts s =
     find (\<lambda>e. Suc (length e) \<le> length s \<and>
                map toLowerAscii (drop (length s - Suc (length e)) s) = CHR ''.'' # e) exts"

text \<open>\<^verbatim>\<open>s.replace(/\.(e1|e2|...)$/i, repl)\<close>\<close>

definition replace_ext :: "js_string list \<Rightarrow> js_string \<Rightarrow> js_string \<Rightarrow> js_string" where
  "replace_ext exts repl s =
     (case ext_match exts s of
        None \<Rightarrow> s
      | Some e \<Rightarrow> take (length s - Suc (length e)) s @ repl)"

text \<open>The scale-and-letterbox filter shared by the two normalizers.\<close>

definition scale_pad :: "int \<Rightarrow> int \<Rightarrow> js_string" where
  "scale_pad width height =
     ''scale='' @ String_int width @ '':'' @ String_int height
       @ '':force_original_aspect_ratio=decrease,pad='' @ String_int width @ '':''
       @ String_int height @ '':(ow-iw)/2:(oh-ih)/2:black''"

text \<open>The argument vector built by \<^verbatim>\<open>normalizeVideoToOneSecond\<close>.\<close>

definition normalizeVideoToOneSecond_args ::
  "js_string \<Rightarrow> js_string \<Rightarrow> int \<Rightarrow> int \<Rightarrow> js_string list" where
  "normalizeVideoToOneSecond_args inputPath outputPath width height =
     [''-i'', inputPath,
      ''-t'', ''1'',
      ''-vf'', scale_pad width height @ '',setsar=1'',
      ''-c:v'', ''libx264'',
      ''-preset'', ''fast'',
      ''-crf'', ''23'',
      ''-c:a'', ''aac'',
      ''-b:a'', ''128k'',
      ''-r'', ''30'',
      ''-pix_fmt'', ''yuv420p'',
      ''-y'', outputPath]"

text \<open>The argument vector built by \<^verbatim>\<open>convertImageToVideo\<close>.\<close>

definition convertImageToVideo_args ::
  "js_string \<Rightarrow> js_string \<Rightarrow> int \<Rightarrow> int \<Rightarrow> js_string list" where
  "convertImageToVideo_args imagePath outputPath width height =
     [''-loop'', ''1'',
      ''-i'', imagePath,
      ''-c:v'', ''libx264'',
      ''-t'', ''1'',
      ''-pix_fmt'', ''yuv420p'',
      ''-vf'', scale_pad width height,
      ''-r'', ''30'',
      ''-y'', outputPath]"

text \<open>
  The argument vector built by \<^verbatim>\<open>concatenateVideos\<close>: the branch with
  background music and the branch without; \<open>exists\<close> is the answer of
  \<^verbatim>\<open>fs.existsSync\<close>, asked only for a truthy music path.
\<close>

definition concat_with_music_args :: "js_string \<Rightarrow> js_string \<Rightarrow> js_string \<Rightarrow> js_string list" where
  "concat_with_music_args listFile outputPath musicPath =
     [''-f'', ''concat'',
      ''-safe'', ''0'',
      ''-i'', listFile,
      ''-stream_loop'', ''-1'',
      ''-i'', musicPath,
      ''-vf'', ''scale=1920:1080:force_original_aspect_ratio=decrease,pad=1920:1080:(ow-iw)/2:(oh-ih)/2:black,setsar=1'',
      ''-map'', ''0:v'',
      ''-map'', ''1:a'',
      ''-c:v'', ''libx264'',
      ''-preset'', ''fast'',
      ''-crf'', ''23'',
      ''-c:a'', ''aac'',
      ''-b:a'', ''192k'',
      ''-shortest'',
      ''-movflags'', ''+faststart'',
      ''-y'', outputPath]"

definition concat_without_music_args :: "js_string \<Rightarrow> js_string \<Rightarrow> js_string list" where
  "concat_without_music_args listFile outputPath =
     [''-f'', ''concat'',
      ''-safe'', ''0'',
      ''-i'', listFile,
      ''-vf'', ''scale=1920:1080:force_original_aspect_ratio=decrease,pad=1920:1080:(ow-iw)/2:(oh-ih)/2:black,setsar=1'',
      ''-c:v'', ''libx264'',
      ''-preset'', ''fast'',
      ''-crf'', ''23'',
      ''-c:a'', ''aac'',
      ''-b:a'', ''128k'',
      ''-movflags'', ''+faststart'',
      ''-y'', outputPath]"

definition concatenateVideos_args ::
  "(js_string \<Rightarrow> bool) \<Rightarrow> js_string \<Rightarrow> js_string \<Rightarrow> js_string option \<Rightarrow> js_string list" where
  "concatenateVideos_args exists listFile outputPath musicPath =
     (case musicPath of
        Some music \<Rightarrow>
          if music \<noteq> [] \<and> exists music
          then concat_with_music_args listFile outputPath music
          else concat_without_music_args listFile outputPath
      | None \<Rightarrow> concat_without_music_args listFile outputPath)"

section \<open>The compilation engine\<close>

text \<open>A thrown value, by its message.\<close>

datatype js_error = Error js_string

text \<open>
  How one encoder process ends: the \<^verbatim>\<open>close\<close> event with its exit code
  (\<^verbatim>\<open>null\<close> after a signal), or the \<^verbatim>\<open>error\<close> event.
\<close>

datatype ffmpeg_outcome = Closed "nat option" | SpawnError js_error

text \<open>
  Everything outside the compiler, as the answers it gives during one run. An
  operation that returns nothing answers with the error it throws, if any.
\<close>

record world =
  TEMP_DIR :: js_string
  NODE_ENV :: "js_string option"
  randomUUID :: js_string
  toISOString :: js_string
  String_localeCompare :: "js_string \<Rightarrow> js_string \<Rightarrow> int"
  Date_parse :: "js_string \<Rightarrow> int option"
  mkdirSync :: "js_string \<Rightarrow> js_error option"
  files_list :: "js_string \<Rightarrow> js_error + drive_file list option"
  files_get :: "js_string \<Rightarrow> js_string \<Rightarrow> js_error option"
  spawn_ffmpeg :: "js_string list \<Rightarrow> ffmpeg_outcome"
  unlinkSync :: "js_string \<Rightarrow> js_error option"
  writeFileSync :: "js_string \<Rightarrow> js_error option"
  existsSync :: "js_string \<Rightarrow> bool"
  files_create :: "js_string \<Rightarrow> js_string \<Rightarrow> js_string \<Rightarrow> js_error + js_string"
  rmSync :: "js_string \<Rightarrow> js_error option"

text \<open>
  What a run does to the outside, in order. \<open>Progress\<close> is a message handed to the
  progress callback (the service always supplies one); console output is left out.
\<close>

datatype event =
    Progress js_string
  | Mkdir js_string
  | ListFiles js_string
  | Download js_string js_string
  | Ffmpeg "js_string list"
  | Unlink js_string
  | WriteFile js_string js_string
  | WriteMusic js_string
  | Upload js_string js_string js_string
  | RmRecursive js_string

text \<open>The value \<^verbatim>\<open>compile\<close> resolves with.\<close>

record compile_result =
  success :: bool
  fileId :: js_string
  fileName :: js_string
  clipCount :: nat

text \<open>
  Sequencing inside a \<^verbatim>\<open>try\<close> block. A step yields the events it caused and
  either the error it threw or its value; \<open>then_do\<close> runs the rest only after a value,
  as \<^verbatim>\<open>await\<close> and statement order do. \<open>emit\<close> is a step that cannot throw,
  \<open>attempt\<close> one that returns nothing and may throw, \<open>throw\<close> the
  \<^verbatim>\<open>throw\<close> statement.
\<close>

type_synonym 'a step = "event list \<times> (js_error + 'a)"

definition then_do :: "'a step \<Rightarrow> ('a \<Rightarrow> 'b step) \<Rightarrow> 'b step" where
  "then_do m f =
     (case m of
        (ev, Inl err) \<Rightarrow> (ev, Inl err)
      | (ev, Inr x) \<Rightarrow> (case f x of (ev', r) \<Rightarrow> (ev @ ev', r)))"

definition emit :: "event list \<Rightarrow> unit step" where
  "emit ev = (ev, Inr ())"

definition attempt :: "event list \<Rightarrow> js_error option \<Rightarrow> unit step" where
  "attempt ev thrown = (ev, case thrown of None \<Rightarrow> Inr () | Some err \<Rightarrow> Inl err)"

definition throw :: "js_error \<Rightarrow> 'a step" where
  "throw err = ([], Inl err)"

text \<open>The constructor's threshold.\<close>

definition minClips :: "world \<Rightarrow> nat" where
  "minClips w = (if NODE_ENV w = Some ''production'' then 7 else 2)"

text \<open>
  The promise around one encoder process: resolved on exit code 0, rejected with
  the given message prefix and the code otherwise, or with the spawn error.
\<close>

definition ffmpeg_promise :: "world \<Rightarrow> js_string list \<Rightarrow> js_string \<Rightarrow> js_error option" where
  "ffmpeg_promise w args prefix =
     (case spawn_ffmpeg w args of
        Closed code \<Rightarrow>
          (case code of
             None \<Rightarrow> Some (Error (prefix @ ''null''))
           | Some c \<Rightarrow> if c = 0 then None else Some (Error (prefix @ String_nat c)))
      | SpawnError err \<Rightarrow> Some err)"

text \<open>\<^verbatim>\<open>/\.(jpg|jpeg|png)$/i.test(clip.name)\<close>\<close>

definition isImage :: "js_string \<Rightarrow> bool" where
  "isImage n = (ext_match [''jpg'', ''jpeg'', ''png''] n \<noteq> None)"

text \<open>Where clip number \<open>i\<close> is downloaded to, and where its one-second segment goes.\<close>

definition downloadPath_of :: "js_string \<Rightarrow> nat \<Rightarrow> drive_file \<Rightarrow> js_string" where
  "downloadPath_of sessionDir i clip =
     path_join sessionDir (padStart 4 (CHR ''0'') (String_nat i) @ ''-'' @ name clip)"

definition segmentPath_of :: "js_string \<Rightarrow> nat \<Rightarrow> drive_file \<Rightarrow> js_string" where
  "segmentPath_of sessionDir i clip =
     (if isImage (name clip)
      then replace_ext [''jpg'', ''jpeg'', ''png''] ''.mp4'' (downloadPath_of sessionDir i clip)
      else replace_ext [''mp4'', ''webm''] ''-norm.mp4'' (downloadPath_of sessionDir i clip))"

text \<open>
  One turn of the loop of \<^verbatim>\<open>downloadClips\<close>, for clip number \<open>i\<close> of \<open>n\<close>:
  download, convert or normalize, remove the download. The result is the segment's
  path, or the error that ends the loop.
\<close>

definition download_one :: "world \<Rightarrow> js_string \<Rightarrow> nat \<Rightarrow> nat \<Rightarrow> drive_file \<Rightarrow> js_string step" where
  "download_one w sessionDir n i clip =
     (let downloadPath = downloadPath_of sessionDir i clip
      in then_do
           (attempt [Progress (''Downloading '' @ String_nat (i + 1) @ ''/'' @ String_nat n @ ''...''),
                     Download (file_id clip) downloadPath]
              (files_get w (file_id clip) downloadPath))
           (\<lambda>_.
              if isImage (name clip) then
                (let videoPath = replace_ext [''jpg'', ''jpeg'', ''png''] ''.mp4'' downloadPath;
                     args = convertImageToVideo_args downloadPath videoPath 1920 1080
                 in then_do
                      (attempt [Progress (''Converting image '' @ String_nat (i + 1) @ ''/''
                                            @ String_nat n @ '' to video...''),
                                Ffmpeg args]
                         (ffmpeg_promise w args ''FFmpeg image conversion exited with code ''))
                      (\<lambda>_. then_do (attempt [Unlink downloadPath] (unlinkSync w downloadPath))
                              (\<lambda>_. ([], Inr videoPath))))
              else
                (let normalizedPath = replace_ext [''mp4'', ''webm''] ''-norm.mp4'' downloadPath;
                     args = normalizeVideoToOneSecond_args downloadPath normalizedPath 1920 1080
                 in then_do
                      (attempt [Progress (''Normalizing clip '' @ String_nat (i + 1) @ ''/''
                                            @ String_nat n @ ''...''),
                                Ffmpeg args]
                         (ffmpeg_promise w args ''FFmpeg video normalization exited with code ''))
                      (\<lambda>_. then_do (attempt [Unlink downloadPath] (unlinkSync w downloadPath))
                              (\<lambda>_. ([], Inr normalizedPath))))))"

text \<open>The loop of \<^verbatim>\<open>downloadClips\<close> from index \<open>i\<close> on; \<open>n\<close> is \<^verbatim>\<open>clips.length\<close>.\<close>

fun downloadClips_from ::
  "world \<Rightarrow> js_string \<Rightarrow> nat \<Rightarrow> nat \<Rightarrow> drive_file list \<Rightarrow> js_string list step" where
  "downloadClips_from w sessionDir n i [] = ([], Inr [])"
| "downloadClips_from w sessionDir n i (clip # rest) =
     (case download_one w sessionDir n i clip of
        (ev, Inl err) \<Rightarrow> (ev, Inl err)
      | (ev, Inr p) \<Rightarrow>
          (case downloadClips_from w sessionDir n (Suc i) rest of
             (ev', Inl err) \<Rightarrow> (ev @ ev', Inl err)
           | (ev', Inr localFiles) \<Rightarrow> (ev @ ev', Inr (p # localFiles))))"

definition downloadClips :: "world \<Rightarrow> js_string \<Rightarrow> drive_file list \<Rightarrow> js_string list step" where
  "downloadClips w sessionDir clips = downloadClips_from w sessionDir (length clips) 0 clips"

text \<open>\<^verbatim>\<open>startDate && endDate\<close>: the two bounds when both are truthy.\<close>

fun date_range :: "js_string option \<Rightarrow> js_string option \<Rightarrow> (js_string \<times> js_string) option" where
  "date_range (Some s) (Some e) = (if s \<noteq> [] \<and> e \<noteq> [] then Some (s, e) else None)"
| "date_range _ _ = None"

text \<open>The predicate of the date filter in \<^verbatim>\<open>compile\<close>.\<close>

definition in_range :: "js_string \<Rightarrow> js_string \<Rightarrow> drive_file \<Rightarrow> bool" where
  "in_range startDate endDate clip =
     (case dateMatch (name clip) of
        None \<Rightarrow> False
      | Some date \<Rightarrow> startDate \<le> date \<and> date \<le> endDate)"

text \<open>
  The catalog \<^verbatim>\<open>compile\<close> works on, from the listing's answer: the clips list,
  filtered when both bounds are given.
\<close>

definition select_clips ::
  "world \<Rightarrow> drive_file list option \<Rightarrow> js_string option \<Rightarrow> js_string option \<Rightarrow> drive_file list" where
  "select_clips w response startDate endDate =
     (let clips = fetchClipsList (String_localeCompare w) (Date_parse w) response
      in case date_range startDate endDate of
           Some (s, e) \<Rightarrow> filter (in_range s e) clips
         | None \<Rightarrow> clips)"

text \<open>\<^verbatim>\<open>formatForDisplay\<close> and the name of the output file.\<close>

definition formatForDisplay :: "js_string \<Rightarrow> js_string" where
  "formatForDisplay date = join ''-'' (rev (split_on (CHR ''-'') date))"

definition timestamp :: "world \<Rightarrow> js_string" where
  "timestamp w =
     take 19 (map (\<lambda>c. if c = CHR '':'' \<or> c = CHR ''.'' then CHR ''-'' else c) (toISOString w))"

definition outputFileName :: "world \<Rightarrow> js_string option \<Rightarrow> js_string option \<Rightarrow> js_string" where
  "outputFileName w startDate endDate =
     (case date_range startDate endDate of
        Some (s, e) \<Rightarrow>
          ''365moments_'' @ formatForDisplay s @ ''_to_'' @ formatForDisplay e @ ''_''
            @ timestamp w @ ''.mp4''
      | None \<Rightarrow> ''365moments-compilation_'' @ timestamp w @ ''.mp4'')"

text \<open>The content of the encoder's file list.\<close>

definition fileListContent :: "js_string list \<Rightarrow> js_string" where
  "fileListContent localFiles =
     join [CHR 0x0A] (map (\<lambda>f. ''file '' @ [CHR 0x27] @ f @ [CHR 0x27]) localFiles)"

text \<open>
  \<^verbatim>\<open>saveMusicFromBase64\<close>: the path written, or \<^verbatim>\<open>null\<close> when anything in
  its \<^verbatim>\<open>try\<close> block throws.
\<close>

definition saveMusicFromBase64 :: "world \<Rightarrow> js_string \<Rightarrow> event list \<times> js_string option" where
  "saveMusicFromBase64 w sessionDir =
     (let musicPath = path_join sessionDir ''music.mp3''
      in case writeFileSync w musicPath of
           None \<Rightarrow> ([WriteMusic musicPath], Some musicPath)
         | Some err \<Rightarrow> ([WriteMusic musicPath], None))"

text \<open>
  The music block of \<^verbatim>\<open>compile\<close>: \<^verbatim>\<open>musicPath\<close> stays
  \<^verbatim>\<open>null\<close> unless music data is supplied, and is then what the helper returns.
  The block never throws.
\<close>

definition music_step :: "world \<Rightarrow> js_string \<Rightarrow> js_string option \<Rightarrow> js_string option step" where
  "music_step w sessionDir musicData =
     (if truthy musicData
      then (case saveMusicFromBase64 w sessionDir of
              (ev, p) \<Rightarrow> (Progress ''Processing music...'' # ev, Inr p))
      else ([], Inr None))"

text \<open>\<^verbatim>\<open>concatenateVideos\<close>: the command it runs, and the rejection if any.\<close>

definition concatenateVideos ::
  "world \<Rightarrow> js_string \<Rightarrow> js_string \<Rightarrow> js_string option \<Rightarrow> js_string step" where
  "concatenateVideos w listFile outputPath musicPath =
     (let args = concatenateVideos_args (existsSync w) listFile outputPath musicPath
      in then_do (attempt [Ffmpeg args] (ffmpeg_promise w args ''FFmpeg exited with code ''))
           (\<lambda>_. ([], Inr outputPath)))"

text \<open>
  \<^verbatim>\<open>cleanup\<close>: the recursive removal when the directory exists; an error of the
  removal is logged and swallowed. The second component tells whether the directory
  is still there afterwards.
\<close>

definition cleanup :: "world \<Rightarrow> js_string \<Rightarrow> event list \<times> bool" where
  "cleanup w sessionDir =
     (if existsSync w sessionDir
      then (case rmSync w sessionDir of
              None \<Rightarrow> ([RmRecursive sessionDir], False)
            | Some err \<Rightarrow> ([RmRecursive sessionDir], True))
      else ([], False))"

text \<open>The \<^verbatim>\<open>try\<close> block of \<^verbatim>\<open>compile\<close>, up to and without its cleanup.\<close>

definition compile_try ::
  "world \<Rightarrow> js_string \<Rightarrow> js_string option \<Rightarrow> js_string option \<Rightarrow> js_string option \<Rightarrow> js_string
     \<Rightarrow> compile_result step" where
  "compile_try w folderId startDate endDate musicData sessionDir =
     then_do (emit [Progress ''Fetching clips from Drive...'', ListFiles folderId]) (\<lambda>_.
     then_do ([], files_list w folderId) (\<lambda>response.
       (let clips = select_clips w response startDate endDate
        in then_do
             (emit (case date_range startDate endDate of
                      Some r \<Rightarrow> [Progress (''Filtered to '' @ String_nat (length clips)
                                             @ '' clips in range'')]
                    | None \<Rightarrow> []))
             (\<lambda>_.
                if length clips = 0
                then throw (Error ''No clips found in selected range'')
                else if length clips < minClips w
                then throw (Error (''Need at least '' @ String_nat (minClips w)
                                     @ '' clips to compile (found '' @ String_nat (length clips)
                                     @ '')''))
                else
                  (let fileName = outputFileName w startDate endDate;
                       listFile = path_join sessionDir ''filelist.txt'';
                       outputPath = path_join sessionDir fileName
                   in
                   then_do (emit [Progress (''Found '' @ String_nat (length clips) @ '' clips''),
                                  Progress (''Downloading '' @ String_nat (length clips)
                                              @ '' clips...'')]) (\<lambda>_.
                   then_do (downloadClips w sessionDir clips) (\<lambda>localFiles.
                   then_do (attempt [WriteFile listFile (fileListContent localFiles)]
                              (writeFileSync w listFile)) (\<lambda>_.
                   then_do (emit [Progress ''Compiling video...'']) (\<lambda>_.
                   then_do (music_step w sessionDir musicData) (\<lambda>musicPath.
                   then_do (concatenateVideos w listFile outputPath musicPath) (\<lambda>out.
                   then_do (emit [Progress ''Uploading to Drive...'',
                                  Upload outputPath fileName folderId]) (\<lambda>_.
                   then_do ([], files_create w outputPath fileName folderId) (\<lambda>uploadedId.
                   ([], Inr \<lparr>success = True, fileId = uploadedId, fileName = fileName,
                             clipCount = length clips\<rparr>))))))))))))))"

text \<open>
  One run of \<^verbatim>\<open>compile\<close>: its trace, its outcome (the rejection or the result),
  and whether the session directory is still on disk when the run has finished.
\<close>

record run =
  trace :: "event list"
  outcome :: "js_error + compile_result"
  workspace_left :: bool

definition sessionDir_of :: "world \<Rightarrow> js_string" where
  "sessionDir_of w = path_join (TEMP_DIR w) (''session-'' @ randomUUID w)"

definition compile ::
  "world \<Rightarrow> js_string \<Rightarrow> js_string option \<Rightarrow> js_string option \<Rightarrow> js_string option \<Rightarrow> run" where
  "compile w folderId startDate endDate musicData =
     (let sessionDir = sessionDir_of w
      in case mkdirSync w sessionDir of
           Some err \<Rightarrow>
             \<lparr>trace = [Mkdir sessionDir], outcome = Inl err,
              workspace_left = existsSync w sessionDir\<rparr>
         | None \<Rightarrow>
             (case compile_try w folderId startDate endDate musicData sessionDir of
                (ev, Inr result) \<Rightarrow>
                  (case cleanup w sessionDir of
                     (evc, left) \<Rightarrow>
                       \<lparr>trace = Mkdir sessionDir # ev @ evc, outcome = Inr result,
                        workspace_left = left\<rparr>)
              | (ev, Inl error) \<Rightarrow>
                  (case cleanup w sessionDir of
                     (evc, left) \<Rightarrow>
                       \<lparr>trace = Mkdir sessionDir # ev @ evc, outcome = Inl error,
                        workspace_left = left\<rparr>)))"

section \<open>Specification vocabulary for the engine\<close>



text \<open>The downloads of a trace, and the encoder commands of a trace, in order.\<close>

fun downloads :: "event list \<Rightarrow> (js_string \<times> js_string) list" where
  "downloads [] = []"
| "downloads (Download fid p # es) = (fid, p) # downloads es"
| "downloads (e # es) = downloads es"

fun commands :: "event list \<Rightarrow> js_string list list" where
  "commands [] = []"
| "commands (Ffmpeg args # es) = args # commands es"
| "commands (e # es) = commands es"

text \<open>The encoder command that turns clip number \<open>i\<close> into its segment.\<close>

definition segment_command :: "js_string \<Rightarrow> nat \<Rightarrow> drive_file \<Rightarrow> js_string list" where
  "segment_command sessionDir i clip =
     (if isImage (name clip)
      then convertImageToVideo_args (downloadPath_of sessionDir i clip)
             (segmentPath_of sessionDir i clip) 1920 1080
      else normalizeVideoToOneSecond_args (downloadPath_of sessionDir i clip)
             (segmentPath_of sessionDir i clip) 1920 1080)"


text \<open>Two steps end alike and run the same encoder commands.\<close>

definition same_run :: "'a step \<Rightarrow> 'a step \<Rightarrow> bool" where
  "same_run a b = (snd a = snd b \<and> commands (fst a) = commands (fst b))"

text \<open>The removals of a trace.\<close>

fun removals :: "event list \<Rightarrow> js_string list" where
  "removals [] = []"
| "removals (RmRecursive p # es) = p # removals es"
| "removals (e # es) = removals es"

text \<open>The file lists written by a trace.\<close>

fun written :: "event list \<Rightarrow> (js_string \<times> js_string) list" where
  "written [] = []"
| "written (WriteFile p c # es) = (p, c) # written es"
| "written (e # es) = written es"


text \<open>
  A world in which every outside operation succeeds, on the scenario's listing, and
  variations of it: one whose recursive removal throws, and one that cannot write
  the music file.
\<close>

definition scenario_world :: world where
  "scenario_world =
     \<lparr>TEMP_DIR = ''/app/temp'', NODE_ENV = None, randomUUID = ''7f3c'',
      toISOString = ''2024-03-01T10:20:30.456Z'',
      String_localeCompare = codeUnitCompare, Date_parse = scenario_parseDate,
      mkdirSync = (\<lambda>p. None),
      files_list = (\<lambda>folder. Inr (Some scenario_files)),
      files_get = (\<lambda>fid p. None),
      spawn_ffmpeg = (\<lambda>args. Closed (Some 0)),
      unlinkSync = (\<lambda>p. None),
      writeFileSync = (\<lambda>p. None),
      existsSync = (\<lambda>p. True),
      files_create = (\<lambda>p n folder. Inr ''up1''),
      rmSync = (\<lambda>p. None)\<rparr>"

definition rm_failing_world :: world where
  "rm_failing_world = scenario_world\<lparr>rmSync := (\<lambda>p. Some (Error ''EACCES: permission denied''))\<rparr>"

definition music_failing_world :: world where
  "music_failing_world =
     scenario_world\<lparr>writeFileSync :=
       (\<lambda>p. if p = ''/app/temp/session-7f3c/music.mp3''
            then Some (Error ''ENOSPC: no space left on device'') else None)\<rparr>"
section \<open>The encoder\<close>

text \<open>
  The encoder is a program outside the repository: the compiler composes a command
  line and waits for the exit code. What a command produces is therefore said with
  the encoder as a parameter, of which the theorems assume that it behaves as its
  manual describes on the commands read below.

  Reading a command line. An argument that starts with a hyphen is an option.
  \<^verbatim>\<open>-y\<close> and \<^verbatim>\<open>-shortest\<close> are flags; every other option used by the compiler
  takes one value. The options that precede an \<^verbatim>\<open>-i\<close> belong to that input; the
  options after the last input belong to the output file, which is the last
  argument. A command with any other option, an input option on the output or an
  output option on an input is not read.
\<close>

definition flags :: "js_string list" where
  "flags = [''-y'', ''-shortest'']"

definition input_options :: "js_string list" where
  "input_options = [''-f'', ''-safe'', ''-loop'', ''-stream_loop'']"

definition output_options :: "js_string list" where
  "output_options =
     [''-t'', ''-vf'', ''-c:v'', ''-preset'', ''-crf'', ''-c:a'', ''-b:a'', ''-r'', ''-pix_fmt'',
      ''-map'', ''-movflags'']"

record command =
  cmd_inputs :: "(js_string \<times> (js_string \<times> js_string) list) list"
  cmd_options :: "(js_string \<times> js_string) list"
  cmd_flags :: "js_string list"
  cmd_output :: js_string

fun parse_args ::
  "(js_string \<times> (js_string \<times> js_string) list) list \<Rightarrow> (js_string \<times> js_string) list
     \<Rightarrow> js_string list \<Rightarrow> js_string list \<Rightarrow> command option" where
  "parse_args ins pending fl (a # v # rest) =
     (if a \<in> set flags then parse_args ins pending (fl @ [a]) (v # rest)
      else if a = ''-i'' then
        (if list_all (\<lambda>kv. fst kv \<in> set input_options) pending
         then parse_args (ins @ [(v, pending)]) [] fl rest
         else None)
      else if a \<in> set input_options \<or> a \<in> set output_options
      then parse_args ins (pending @ [(a, v)]) fl rest
      else None)"
| "parse_args ins pending fl [out] =
     (if out \<noteq> [] \<and> hd out \<noteq> CHR ''-'' \<and> list_all (\<lambda>kv. fst kv \<in> set output_options) pending
      then Some \<lparr>cmd_inputs = ins, cmd_options = pending, cmd_flags = fl, cmd_output = out\<rparr>
      else None)"
| "parse_args ins pending fl [] = None"

definition parse_command :: "js_string list \<Rightarrow> command option" where
  "parse_command args = parse_args [] [] [] args"


text \<open>A decimal number, as the values of \<^verbatim>\<open>-t\<close>, \<^verbatim>\<open>-r\<close> and the filter sizes are.\<close>

definition digit_value :: "char \<Rightarrow> int" where
  "digit_value c =
     (case map_of [(CHR ''0'', 0), (CHR ''1'', 1), (CHR ''2'', 2), (CHR ''3'', 3), (CHR ''4'', 4),
                   (CHR ''5'', 5), (CHR ''6'', 6), (CHR ''7'', 7), (CHR ''8'', 8), (CHR ''9'', 9)] c of
        Some d \<Rightarrow> d
      | None \<Rightarrow> 0)"

definition decimal :: "js_string \<Rightarrow> int option" where
  "decimal s =
     (if s \<noteq> [] \<and> list_all is_digit s
      then Some (foldl (\<lambda>n c. 10 * n + digit_value c) 0 s)
      else None)"

text \<open>
  What a file holds, as far as the claims go: whether it is a list of media files,
  which then plays the listed files one after the other; whether it has pictures (a
  video stream or a still image); whether it is a still image; whether it has sound;
  and how long it plays, in milliseconds.
\<close>

record media =
  is_list :: bool
  has_pictures :: bool
  is_still :: bool
  has_sound :: bool
  length_ms :: int

text \<open>
  A list of media files is read with \<^verbatim>\<open>-f concat\<close>, and with \<^verbatim>\<open>-safe 0\<close>
  because the compiler lists absolute paths; a media file is read without either
  option.
\<close>

definition readable :: "(js_string \<times> js_string) list \<Rightarrow> media \<Rightarrow> bool" where
  "readable opts m =
     (if is_list m
      then map_of opts ''-f'' = Some ''concat'' \<and> map_of opts ''-safe'' = Some ''0''
      else map_of opts ''-f'' = None \<and> map_of opts ''-safe'' = None)"

text \<open>
  What the encoder leaves at the output path: the input whose pictures it shows,
  the input whose sound it carries (\<open>None\<close>: no audio track), whether that input is
  read over and over without end, how long the file plays, and the frame size,
  frame rate and pixel format, where the command sets them.
\<close>

record product =
  out_video :: "js_string option"
  out_audio :: "js_string option"
  out_audio_looped :: bool
  out_ms :: int
  out_frame :: "(int \<times> int) option"
  out_rate :: "int option"
  out_pix_fmt :: "js_string option"

text \<open>
  How long an input lasts. A still image read with \<^verbatim>\<open>-loop 1\<close> and any input read
  with \<^verbatim>\<open>-stream_loop -1\<close> never end; an input without either option lasts as long
  as the file plays.
\<close>

datatype span = Ms int | Endless

fun shorter :: "span \<Rightarrow> span \<Rightarrow> span" where
  "shorter Endless b = b"
| "shorter a Endless = a"
| "shorter (Ms a) (Ms b) = Ms (min a b)"

fun longer :: "span \<Rightarrow> span \<Rightarrow> span" where
  "longer Endless b = Endless"
| "longer a Endless = Endless"
| "longer (Ms a) (Ms b) = Ms (max a b)"

definition input_span :: "(js_string \<times> js_string) list \<Rightarrow> media \<Rightarrow> span option" where
  "input_span opts m =
     (case (map_of opts ''-loop'', map_of opts ''-stream_loop'') of
        (None, None) \<Rightarrow> Some (Ms (length_ms m))
      | (Some l, None) \<Rightarrow> if l = ''1'' \<and> is_still m then Some Endless else None
      | (None, Some n) \<Rightarrow> if n = ''-1'' then Some Endless else None
      | (Some l, Some n) \<Rightarrow> None)"

text \<open>
  Stream selection. \<^verbatim>\<open>-map i:v\<close> puts the pictures of input \<open>i\<close> into the output and
  \<^verbatim>\<open>-map i:a\<close> its sound, and with a map nothing else goes in; a map that matches
  no stream makes the encoder fail. Without a map, a command with one input takes
  that input's pictures and its sound, as far as it has them. The result is the
  position of the input giving the pictures and of the one giving the sound.
\<close>

definition parse_map :: "js_string \<Rightarrow> (nat \<times> bool) option" where
  "parse_map s =
     (case split_on (CHR '':'') s of
        [i, k] \<Rightarrow>
          (case decimal i of
             Some n \<Rightarrow> if k = ''v'' then Some (nat n, True)
                       else if k = ''a'' then Some (nat n, False)
                       else None
           | None \<Rightarrow> None)
      | _ \<Rightarrow> None)"

definition selected :: "command \<Rightarrow> (js_string \<Rightarrow> media) \<Rightarrow> (nat option \<times> nat option) option" where
  "selected c holds =
     (let maps = map snd (filter (\<lambda>kv. fst kv = ''-map'') (cmd_options c));
          ms = map (\<lambda>inp. holds (fst inp)) (cmd_inputs c)
      in if maps = [] then
           (case ms of
              [m] \<Rightarrow> Some (if has_pictures m then Some 0 else None,
                           if has_sound m then Some 0 else None)
            | _ \<Rightarrow> None)
         else
           (case those (map parse_map maps) of
              None \<Rightarrow> None
            | Some sel \<Rightarrow>
                if distinct (map snd sel) \<and>
                   list_all (\<lambda>iv. fst iv < length ms \<and>
                                  (if snd iv then has_pictures (ms ! fst iv)
                                   else has_sound (ms ! fst iv))) sel
                then Some (map_of (map (\<lambda>iv. (snd iv, fst iv)) sel) True,
                           map_of (map (\<lambda>iv. (snd iv, fst iv)) sel) False)
                else None))"

text \<open>
  The frame size a filter chain imposes. The chains the compiler writes scale the
  picture to fit a box, keeping its aspect ratio
  (\<^verbatim>\<open>scale=w:h:force_original_aspect_ratio=decrease\<close>), and then pad it to a size at
  least as large (\<^verbatim>\<open>pad=w:h:...\<close>), which is then the frame size; \<^verbatim>\<open>setsar\<close> does
  not change it. No other chain is read.
\<close>

definition filter_name :: "js_string \<Rightarrow> js_string" where
  "filter_name f = takeWhile (\<lambda>c. c \<noteq> CHR ''='') f"

definition filter_args :: "js_string \<Rightarrow> js_string list" where
  "filter_args f = split_on (CHR '':'') (drop 1 (dropWhile (\<lambda>c. c \<noteq> CHR ''='') f))"

definition frame_of_filters :: "js_string \<Rightarrow> (int \<times> int) option" where
  "frame_of_filters vf =
     (case split_on (CHR '','') vf of
        sc # pd # rest \<Rightarrow>
          if filter_name sc = ''scale'' \<and> filter_name pd = ''pad''
             \<and> list_all (\<lambda>f. filter_name f = ''setsar'') rest
          then
            (case (filter_args sc, filter_args pd) of
               (w # h # mode, pw # ph # placement) \<Rightarrow>
                 (case (decimal w, decimal h, decimal pw, decimal ph) of
                    (Some a, Some b, Some c, Some d) \<Rightarrow>
                      if mode = [''force_original_aspect_ratio=decrease'']
                         \<and> 0 < a \<and> 0 < b \<and> a \<le> c \<and> b \<le> d
                      then Some (c, d) else None
                  | _ \<Rightarrow> None)
             | _ \<Rightarrow> None)
          else None
      | _ \<Rightarrow> None)"

text \<open>
  The product of a command, by the manual, when every input is read as what it is
  and no output option is given twice. \<^verbatim>\<open>-t\<close> stops the output when it has
  played the given number of seconds; \<^verbatim>\<open>-shortest\<close> stops it when the shortest
  stream ends, and without it the output lasts as long as its longest stream;
  \<^verbatim>\<open>-r\<close> sets a constant frame rate and \<^verbatim>\<open>-pix_fmt\<close> the pixel format. The codec,
  quality and container options change none of this. Durations are the nominal
  ones: the rounding of a container to whole frames and audio packets is left out.
  \<open>None\<close>: the manual as read here does not say, or the encoder fails.
\<close>

definition optional :: "('a \<Rightarrow> 'b option) \<Rightarrow> 'a option \<Rightarrow> 'b option option" where
  "optional read v =
     (case v of
        None \<Rightarrow> Some None
      | Some x \<Rightarrow> (case read x of None \<Rightarrow> None | Some y \<Rightarrow> Some (Some y)))"

definition documented :: "command \<Rightarrow> (js_string \<Rightarrow> media) \<Rightarrow> product option" where
  "documented c holds =
     (if \<not> distinct (map fst (filter (\<lambda>kv. fst kv \<noteq> ''-map'') (cmd_options c)))
         \<or> \<not> list_all (\<lambda>inp. readable (snd inp) (holds (fst inp))) (cmd_inputs c)
      then None
      else
        (case selected c holds of
           None \<Rightarrow> None
         | Some (v, a) \<Rightarrow>
             (case (those (map (\<lambda>i. input_span (snd (cmd_inputs c ! i))
                                       (holds (fst (cmd_inputs c ! i))))
                             ((case v of None \<Rightarrow> [] | Some i \<Rightarrow> [i])
                              @ (case a of None \<Rightarrow> [] | Some i \<Rightarrow> [i]))),
                    optional decimal (map_of (cmd_options c) ''-t''),
                    optional frame_of_filters (map_of (cmd_options c) ''-vf''),
                    optional decimal (map_of (cmd_options c) ''-r'')) of
                (Some (s # spans), Some limit, Some frame, Some rate) \<Rightarrow>
                  (case shorter
                          (foldl (if ''-shortest'' \<in> set (cmd_flags c) then shorter else longer)
                             s spans)
                          (case limit of None \<Rightarrow> Endless | Some t \<Rightarrow> Ms (1000 * t)) of
                     Endless \<Rightarrow> None
                   | Ms n \<Rightarrow>
                       Some \<lparr>out_video = map_option (\<lambda>i. fst (cmd_inputs c ! i)) v,
                             out_audio = map_option (\<lambda>i. fst (cmd_inputs c ! i)) a,
                             out_audio_looped =
                               (case a of
                                  None \<Rightarrow> False
                                | Some i \<Rightarrow>
                                    map_of (snd (cmd_inputs c ! i)) ''-stream_loop'' = Some ''-1''),
                             out_ms = n,
                             out_frame = frame,
                             out_rate = rate,
                             out_pix_fmt = map_of (cmd_options c) ''-pix_fmt''\<rparr>)
              | _ \<Rightarrow> None)))"

text \<open>An encoder behaves as documented when it produces just that wherever the manual says.\<close>

definition follows_manual :: "(js_string list \<Rightarrow> (js_string \<Rightarrow> media) \<Rightarrow> product) \<Rightarrow> bool" where
  "follows_manual encoder =
     (\<forall>args holds c p. parse_command args = Some c \<and> documented c holds = Some p \<longrightarrow>
        encoder args holds = p)"

text \<open>
  One such encoder, and the files of the scenario: the downloaded image, a
  three-second clip with sound, the list of two one-second segments, and a music
  track of one and a half seconds.
\<close>

definition reference_encoder :: "js_string list \<Rightarrow> (js_string \<Rightarrow> media) \<Rightarrow> product" where
  "reference_encoder args holds =
     (case parse_command args of
        None \<Rightarrow> \<lparr>out_video = None, out_audio = None, out_audio_looped = False, out_ms = 0,
                 out_frame = None, out_rate = None, out_pix_fmt = None\<rparr>
      | Some c \<Rightarrow>
          (case documented c holds of
             None \<Rightarrow> \<lparr>out_video = None, out_audio = None, out_audio_looped = False, out_ms = 0,
                      out_frame = None, out_rate = None, out_pix_fmt = None\<rparr>
           | Some p \<Rightarrow> p))"

definition scenario_media :: "js_string \<Rightarrow> media" where
  "scenario_media p =
     (if p = ''/app/temp/session-7f3c/0000-2024-01-01.jpg''
      then \<lparr>is_list = False, has_pictures = True, is_still = True, has_sound = False,
             length_ms = 40\<rparr>
      else if p = ''/app/temp/session-7f3c/0001-2024-01-02.mp4''
      then \<lparr>is_list = False, has_pictures = True, is_still = False, has_sound = True,
             length_ms = 3000\<rparr>
      else if p = ''/app/temp/session-7f3c/filelist.txt''
      then \<lparr>is_list = True, has_pictures = True, is_still = False, has_sound = True,
             length_ms = 2000\<rparr>
      else if p = ''/app/temp/session-7f3c/music.mp3''
      then \<lparr>is_list = False, has_pictures = False, is_still = False, has_sound = True,
             length_ms = 1500\<rparr>
      else \<lparr>is_list = False, has_pictures = False, is_still = False, has_sound = False,
             length_ms = 0\<rparr>)"

section \<open>The job tracker\<close>

text \<open>The \<^verbatim>\<open>status\<close> strings of a job: compiling, complete, error.\<close>

datatype job_status = Compiling | Complete | Failed

text \<open>The job object created by the handler of \<^verbatim>\<open>POST /api/compile\<close>.\<close>

record job =
  job_id :: js_string
  status :: job_status
  progress :: js_string
  job_startDate :: "js_string option"
  job_endDate :: "js_string option"
  startedAt :: js_string
  completedAt :: "js_string option"
  job_clipCount :: nat
  job_error :: "js_string option"
  job_result :: "compile_result option"

text \<open>
  \<^verbatim>\<open>compilationJobs\<close>, a \<^verbatim>\<open>Map\<close> from user identity to job, in insertion
  order: \<^verbatim>\<open>get\<close> is \<^const>\<open>map_of\<close>, \<^verbatim>\<open>set\<close> is \<^const>\<open>AList.update\<close>,
  \<^verbatim>\<open>delete\<close> is \<^const>\<open>AList.delete\<close>.
\<close>

type_synonym registry = "(js_string \<times> job) list"

text \<open>What the handler answers.\<close>

datatype response =
    AlreadyCompiling js_string
  | FfmpegMissing
  | Started js_string
  | ServerError js_string

text \<open>
  What the handler meets outside: the outcome of the folder lookup, whether an
  encoder is available, the fresh identifier and the clock.
\<close>

record service =
  getOrCreateFolder :: "js_error + js_string"
  ffmpegAvailable :: bool
  new_jobId :: js_string
  now :: js_string

text \<open>The request: the session's user and identifier, and the body.\<close>

record request =
  session_email :: "js_string option"
  session_id :: js_string
  body_startDate :: "js_string option"
  body_endDate :: "js_string option"
  body_musicData :: "js_string option"

text \<open>\<^verbatim>\<open>req.session.user?.email || req.session.id\<close>\<close>

definition userId_of :: "request \<Rightarrow> js_string" where
  "userId_of req =
     (case session_email req of
        Some email \<Rightarrow> if email \<noteq> [] then email else session_id req
      | None \<Rightarrow> session_id req)"

text \<open>
  The handler up to the point where it has answered: the answer, the registry
  afterwards, and the background run it goes on to start, if any, as the job's
  identifier and the folder.
\<close>

record admission =
  answer :: response
  jobs_after :: registry
  run_started :: "(js_string \<times> js_string) option"

definition post_compile :: "service \<Rightarrow> registry \<Rightarrow> request \<Rightarrow> admission" where
  "post_compile srv compilationJobs req =
     (case getOrCreateFolder srv of
        Inl err \<Rightarrow>
          \<lparr>answer = ServerError (case err of Error m \<Rightarrow> if m \<noteq> [] then m else ''Compilation failed''),
           jobs_after = compilationJobs, run_started = None\<rparr>
      | Inr folderId \<Rightarrow>
          (let userId = userId_of req;
               existingJob = map_of compilationJobs userId
           in if (case existingJob of Some j \<Rightarrow> status j = Compiling | None \<Rightarrow> False)
              then \<lparr>answer = AlreadyCompiling (case existingJob of Some j \<Rightarrow> job_id j | None \<Rightarrow> []),
                    jobs_after = compilationJobs, run_started = None\<rparr>
              else if \<not> ffmpegAvailable srv
              then \<lparr>answer = FfmpegMissing, jobs_after = compilationJobs, run_started = None\<rparr>
              else
                (let jobId = new_jobId srv;
                     job = \<lparr>job_id = jobId, status = Compiling, progress = ''Starting...'',
                            job_startDate = body_startDate req, job_endDate = body_endDate req,
                            startedAt = now srv, completedAt = None, job_clipCount = 0,
                            job_error = None, job_result = None\<rparr>
                 in \<lparr>answer = Started jobId,
                     jobs_after = AList.update userId job compilationJobs,
                     run_started = Some (jobId, folderId)\<rparr>)))"

text \<open>
  The background part of the handler writes to the job object it created. The
  registry shows the write as long as it still holds that object, which is told by
  the identifier: a progress message, and the end of the run.
\<close>

definition write_job :: "registry \<Rightarrow> js_string \<Rightarrow> js_string \<Rightarrow> (job \<Rightarrow> job) \<Rightarrow> registry" where
  "write_job compilationJobs userId jobId f =
     (case map_of compilationJobs userId of
        Some j \<Rightarrow> if job_id j = jobId then AList.update userId (f j) compilationJobs
                  else compilationJobs
      | None \<Rightarrow> compilationJobs)"

definition on_progress :: "registry \<Rightarrow> js_string \<Rightarrow> js_string \<Rightarrow> js_string \<Rightarrow> registry" where
  "on_progress compilationJobs userId jobId msg =
     write_job compilationJobs userId jobId (\<lambda>j. j\<lparr>progress := msg\<rparr>)"

definition on_settled ::
  "registry \<Rightarrow> js_string \<Rightarrow> js_string \<Rightarrow> js_error + compile_result \<Rightarrow> js_string \<Rightarrow> registry" where
  "on_settled compilationJobs userId jobId settled time =
     write_job compilationJobs userId jobId
       (\<lambda>j. case settled of
               Inr result \<Rightarrow>
                 j\<lparr>status := Complete, progress := ''Done!'', job_result := Some result,
                   job_clipCount := clipCount result, completedAt := Some time\<rparr>
             | Inl (Error m) \<Rightarrow>
                 j\<lparr>status := Failed, job_error := Some m, progress := ''Failed''\<rparr>)"

text \<open>\<^verbatim>\<open>DELETE /api/compile/status\<close>\<close>

definition delete_status :: "registry \<Rightarrow> request \<Rightarrow> registry" where
  "delete_status compilationJobs req = AList.delete (userId_of req) compilationJobs"

text \<open>The registries the service can be in, starting from the empty one.\<close>

inductive reachable :: "registry \<Rightarrow> bool" where
  start: "reachable []"
| submit: "reachable jobs \<Longrightarrow> reachable (jobs_after (post_compile srv jobs req))"
| report: "reachable jobs \<Longrightarrow> reachable (on_progress jobs userId jobId msg)"
| settle: "reachable jobs \<Longrightarrow> reachable (on_settled jobs userId jobId settled time)"
| clear: "reachable jobs \<Longrightarrow> reachable (delete_status jobs req)"

text \<open>How many jobs the registry tracks for a user.\<close>

definition tracked :: "registry \<Rightarrow> js_string \<Rightarrow> nat" where
  "tracked jobs userId = length (filter (\<lambda>(u, j). u = userId) jobs)"

text \<open>A registry in which a user's job is compiling, and a service whose folder lookup throws.\<close>

definition busy_registry :: registry where
  "busy_registry =
     [(''ana@example.org'',
       \<lparr>job_id = ''j-1'', status = Compiling, progress = ''Downloading 1/2...'',
        job_startDate = None, job_endDate = None, startedAt = ''2024-03-01T10:20:30.456Z'',
        completedAt = None, job_clipCount = 0, job_error = None, job_result = None\<rparr>)]"

definition ana_request :: request where
  "ana_request =
     \<lparr>session_email = Some ''ana@example.org'', session_id = ''s-9'',
      body_startDate = None, body_endDate = None, body_musicData = None\<rparr>"

definition ready_service :: service where
  "ready_service =
     \<lparr>getOrCreateFolder = Inr ''folder1'', ffmpegAvailable = True, new_jobId = ''j-2'',
      now = ''2024-03-01T10:21:00.000Z''\<rparr>"

definition drive_down_service :: service where
  "drive_down_service = ready_service\<lparr>getOrCreateFolder := Inl (Error ''Drive API unreachable'')\<rparr>"
section \<open>Properties of the catalog\<close>


lemma admitted_dateMatch: "admitted f \<Longrightarrow> \<exists>k. dateMatch (name f) = Some k"
  by (auto simp: admitted_def datePattern_test_def split: option.splits)

lemma set_insert_by: "set (insert_by cmp x ys) = insert x (set ys)"
  by (induction ys) auto

lemma js_sort_Nil: "js_sort cmp [] = []"
  by (simp add: js_sort_def)

lemma js_sort_Cons: "js_sort cmp (x # xs) = insert_by cmp x (js_sort cmp xs)"
  by (simp add: js_sort_def)

lemma set_js_sort: "set (js_sort cmp xs) = set xs"
  by (induction xs) (auto simp: js_sort_Nil js_sort_Cons set_insert_by)

lemma distinct_map_insert_by:
  "distinct (map k (insert_by cmp x ys)) = distinct (map k (x # ys))"
  by (induction ys) (auto simp: set_insert_by)

lemma distinct_map_js_sort: "distinct (map k (js_sort cmp xs)) = distinct (map k xs)"
  by (induction xs) (auto simp: js_sort_Nil js_sort_Cons distinct_map_insert_by set_js_sort)

lemma foldl_filter:
  "foldl f m (filter P xs) = foldl (\<lambda>m x. if P x then f m x else m) m xs"
  by (induction xs arbitrary: m) auto

lemma latest_for_date_snoc_other:
  assumes "latest_for_date stamp pre g"
    and "\<not> admitted f \<or> dateMatch (name f) \<noteq> dateMatch (name g)
         \<or> stamp f < stamp g"
  shows "latest_for_date stamp (pre @ [f]) g"
proof -
  from assms(1) obtain i where i: "i < length pre" "pre ! i = g" "admitted g"
    and best: "\<forall>j<length pre. admitted (pre ! j) \<and> dateMatch (name (pre ! j)) = dateMatch (name g) \<longrightarrow>
              stamp (pre ! j) \<le> stamp g \<and> (stamp (pre ! j) = stamp g \<longrightarrow> j \<le> i)"
    unfolding latest_for_date_def by blast
  have "\<forall>j<length (pre @ [f]).
            admitted ((pre @ [f]) ! j) \<and> dateMatch (name ((pre @ [f]) ! j)) = dateMatch (name g) \<longrightarrow>
              stamp ((pre @ [f]) ! j) \<le> stamp g \<and> (stamp ((pre @ [f]) ! j) = stamp g \<longrightarrow> j \<le> i)"
  proof (intro allI impI)
    fix j assume j: "j < length (pre @ [f])"
      and a: "admitted ((pre @ [f]) ! j) \<and> dateMatch (name ((pre @ [f]) ! j)) = dateMatch (name g)"
    show "stamp ((pre @ [f]) ! j) \<le> stamp g \<and> (stamp ((pre @ [f]) ! j) = stamp g \<longrightarrow> j \<le> i)"
    proof (cases "j < length pre")
      case True
      with a best show ?thesis by (simp add: nth_append)
    next
      case False
      with j have "j = length pre" by simp
      with a assms(2) show ?thesis by (auto simp: nth_append)
    qed
  qed
  moreover have "i < length (pre @ [f])" "(pre @ [f]) ! i = g"
    using i by (simp_all add: nth_append)
  ultimately show ?thesis
    unfolding latest_for_date_def using i(3) by blast
qed

lemma latest_for_date_snoc_new:
  assumes "admitted f"
    and "\<forall>j<length pre. admitted (pre ! j) \<and> dateMatch (name (pre ! j)) = dateMatch (name f) \<longrightarrow>
              stamp (pre ! j) \<le> stamp f"
  shows "latest_for_date stamp (pre @ [f]) f"
  unfolding latest_for_date_def
proof (intro conjI exI[of _ "length pre"] allI impI)
  fix j assume "j < length (pre @ [f])"
    and "admitted ((pre @ [f]) ! j) \<and> dateMatch (name ((pre @ [f]) ! j)) = dateMatch (name f)"
  with assms(2) show "stamp ((pre @ [f]) ! j) \<le> stamp f"
    by (cases "j < length pre") (auto simp: nth_append)
next
  fix j assume "j < length (pre @ [f])"
  then show "j \<le> length pre" by simp
qed (use assms(1) in simp_all)

lemma catalog_inv_step:
  assumes inv: "catalog_inv stamp pre m"
    and valid: "\<forall>x\<in>set (pre @ [f]). admitted x \<longrightarrow> clipTime parseDate x = Some (stamp x)"
  shows "catalog_inv stamp (pre @ [f])
           (if admitted f then uniqueByDate_step parseDate m f else m)"
proof (cases "admitted f")
  case False
  with inv show ?thesis
    unfolding catalog_inv_def
    by (auto intro: latest_for_date_snoc_other)
next
  case adm: True
  then obtain k where k: "dateMatch (name f) = Some k"
    using admitted_dateMatch by blast
  from inv have dist: "distinct (map fst m)"
    and win: "\<And>k g. map_of m k = Some g \<Longrightarrow> dateMatch (name g) = Some k \<and> latest_for_date stamp pre g"
    and cov: "\<And>x. x \<in> set pre \<Longrightarrow> admitted x \<Longrightarrow> \<exists>k g. dateMatch (name x) = Some k \<and> map_of m k = Some g"
    unfolding catalog_inv_def by blast+
  have replace: "catalog_inv stamp (pre @ [f]) (AList.update k f m)"
    if older: "\<forall>j<length pre. admitted (pre ! j) \<and> dateMatch (name (pre ! j)) = Some k \<longrightarrow>
              stamp (pre ! j) \<le> stamp f"
    unfolding catalog_inv_def
  proof (intro conjI allI impI ballI)
    show "distinct (map fst (AList.update k f m))"
      using dist by (simp add: distinct_update)
  next
    fix k' g assume "map_of (AList.update k f m) k' = Some g"
    then have cases: "(k' = k \<and> g = f) \<or> (k' \<noteq> k \<and> map_of m k' = Some g)"
      by (auto simp: update_conv' split: if_splits)
    then show "dateMatch (name g) = Some k'"
      using k win by auto
    from cases show "latest_for_date stamp (pre @ [f]) g"
    proof
      assume "k' = k \<and> g = f"
      then show ?thesis
        using latest_for_date_snoc_new[OF adm, of pre stamp] older k by simp
    next
      assume other: "k' \<noteq> k \<and> map_of m k' = Some g"
      with win have "dateMatch (name g) = Some k'" "latest_for_date stamp pre g" by auto
      with other k show ?thesis
        by (intro latest_for_date_snoc_other) auto
    qed
  next
    fix x assume x: "x \<in> set (pre @ [f])" "admitted x"
    have "\<exists>k'. dateMatch (name x) = Some k' \<and> (k' = k \<or> (\<exists>g. map_of m k' = Some g))"
      using x cov k by auto
    then obtain k' where k': "dateMatch (name x) = Some k'" "k' = k \<or> (\<exists>g. map_of m k' = Some g)"
      by blast
    then have "\<exists>g. map_of (AList.update k f m) k' = Some g"
      by (cases "k' = k") (auto simp: update_conv')
    with k'(1) show "\<exists>k' g. dateMatch (name x) = Some k' \<and> map_of (AList.update k f m) k' = Some g"
      by blast
  qed
  show ?thesis
  proof (cases "map_of m k")
    case None
    have "\<forall>j<length pre. admitted (pre ! j) \<and> dateMatch (name (pre ! j)) = Some k \<longrightarrow>
              stamp (pre ! j) \<le> stamp f"
    proof (intro allI impI)
      fix j assume "j < length pre" "admitted (pre ! j) \<and> dateMatch (name (pre ! j)) = Some k"
      with cov[of "pre ! j"] None show "stamp (pre ! j) \<le> stamp f" by auto
    qed
    from replace[OF this] adm k None show ?thesis
      by (simp add: uniqueByDate_step_def)
  next
    case (Some existing)
    from win[OF Some] have ex: "dateMatch (name existing) = Some k"
      "latest_for_date stamp pre existing" by auto
    then have "existing \<in> set pre" "admitted existing"
      unfolding latest_for_date_def by auto
    with valid adm have te: "clipTime parseDate existing = Some (stamp existing)"
      and tf: "clipTime parseDate f = Some (stamp f)" by auto
    show ?thesis
    proof (cases "stamp existing \<le> stamp f")
      case True
      have "\<forall>j<length pre. admitted (pre ! j) \<and> dateMatch (name (pre ! j)) = Some k \<longrightarrow>
              stamp (pre ! j) \<le> stamp f"
        using ex True unfolding latest_for_date_def by fastforce
      from replace[OF this] adm k Some True te tf show ?thesis
        by (simp add: uniqueByDate_step_def time_ge_def)
    next
      case False
      have "catalog_inv stamp (pre @ [f]) m"
        unfolding catalog_inv_def
      proof (intro conjI allI impI ballI)
        show "distinct (map fst m)" by (rule dist)
      next
        fix k' g assume g: "map_of m k' = Some g"
        then show "dateMatch (name g) = Some k'" using win by blast
        show "latest_for_date stamp (pre @ [f]) g"
        proof (cases "k' = k")
          case True
          with g Some have "g = existing" by simp
          with False ex show ?thesis
            by (intro latest_for_date_snoc_other) auto
        next
          case False
          with win[OF g] k show ?thesis
            by (intro latest_for_date_snoc_other) auto
        qed
      next
        fix x assume "x \<in> set (pre @ [f])" "admitted x"
        then show "\<exists>k' g. dateMatch (name x) = Some k' \<and> map_of m k' = Some g"
          using cov k Some by auto
      qed
      with adm k Some False te tf show ?thesis
        by (simp add: uniqueByDate_step_def time_ge_def)
    qed
  qed
qed

lemma catalog_inv_fold:
  assumes "\<forall>x\<in>set files. admitted x \<longrightarrow> clipTime parseDate x = Some (stamp x)"
  shows "catalog_inv stamp files (foldl (uniqueByDate_step parseDate) [] (filter admitted files))"
  unfolding foldl_filter using assms
proof (induction files rule: rev_induct)
  case Nil
  show ?case by (simp add: catalog_inv_def)
next
  case (snoc f pre)
  then have "catalog_inv stamp pre
      (foldl (\<lambda>m x. if admitted x then uniqueByDate_step parseDate m x else m) [] pre)"
    by simp
  from catalog_inv_step[OF this snoc.prems]
  show ?case by simp
qed

lemma clipTime_of_fields:
  assumes "if modifiedTime f \<notin> {None, Some []}
           then Option.bind (modifiedTime f) parseDate = Some t
           else if createdTime f \<notin> {None, Some []}
           then Option.bind (createdTime f) parseDate = Some t
           else t = 0"
  shows "clipTime parseDate f = Some t"
proof (cases "modifiedTime f")
  case None
  with assms show ?thesis
    by (cases "createdTime f")
       (auto simp: clipTime_def newDate_def js_or_def truthy_def split: if_splits)
next
  case (Some s)
  with assms show ?thesis
    by (cases "createdTime f")
       (auto simp: clipTime_def newDate_def js_or_def truthy_def split: if_splits)
qed

text \<open>
  Claim C1. Let \<open>stamp f\<close> be the time of an admitted file \<open>f\<close> of the listing: its
  \<^verbatim>\<open>modifiedTime\<close> as the runtime parses it, or, for a file without one, its
  \<^verbatim>\<open>createdTime\<close>, or the epoch for a file with neither. Nothing is asked of the
  files the filter drops. Then the catalog built by \<^verbatim>\<open>fetchClipsList\<close> holds at
  most one item per extracted date; each item is, among the admitted files of its
  date, one with the latest time, and among those with that same time the one latest
  in list order; every admitted file's date is represented. The function is total:
  discarding a duplicate raises nothing.
\<close>

theorem fetchClipsList_latest_per_date:
  assumes "\<forall>f\<in>set (files_or_empty response). admitted f \<longrightarrow>
             (if modifiedTime f \<notin> {None, Some []}
              then Option.bind (modifiedTime f) parseDate = Some (stamp f)
              else if createdTime f \<notin> {None, Some []}
              then Option.bind (createdTime f) parseDate = Some (stamp f)
              else stamp f = 0)"
  shows "distinct (map (\<lambda>g. dateMatch (name g)) (fetchClipsList localeCompare parseDate response)) \<and>
         (\<forall>g\<in>set (fetchClipsList localeCompare parseDate response).
            latest_for_date stamp (files_or_empty response) g) \<and>
         (\<forall>f\<in>set (files_or_empty response). admitted f \<longrightarrow>
            (\<exists>g\<in>set (fetchClipsList localeCompare parseDate response).
               dateMatch (name g) = dateMatch (name f)))"
proof -
  define files where "files = files_or_empty response"
  define m where "m = foldl (uniqueByDate_step parseDate) [] (filter admitted files)"
  have cat: "fetchClipsList localeCompare parseDate response =
               js_sort (\<lambda>a b. localeCompare (name a) (name b)) (map snd m)"
    by (simp add: fetchClipsList_def m_def files_def)
  have "\<forall>x\<in>set files. admitted x \<longrightarrow> clipTime parseDate x = Some (stamp x)"
    using assms clipTime_of_fields unfolding files_def by blast
  then have inv: "catalog_inv stamp files m"
    unfolding m_def by (rule catalog_inv_fold)
  then have dist: "distinct (map fst m)"
    and win: "\<And>k g. map_of m k = Some g \<Longrightarrow> dateMatch (name g) = Some k \<and> latest_for_date stamp files g"
    and cov: "\<And>x. x \<in> set files \<Longrightarrow> admitted x \<Longrightarrow> \<exists>k g. dateMatch (name x) = Some k \<and> map_of m k = Some g"
    unfolding catalog_inv_def by blast+
  have mem: "map_of m k = Some g" if "(k, g) \<in> set m" for k g
    using that dist by simp
  have keys: "map (\<lambda>g. dateMatch (name g)) (map snd m) = map Some (map fst m)"
    using mem win by (auto simp: map_eq_conv)
  have 1: "distinct (map (\<lambda>g. dateMatch (name g)) (map snd m))"
    unfolding keys using dist by (simp only: distinct_map inj_on_def option.inject) blast
  have 2: "latest_for_date stamp files g" if "g \<in> set (map snd m)" for g
    using that mem win by fastforce
  have 3: "\<exists>g\<in>set (map snd m). dateMatch (name g) = dateMatch (name f)"
    if "f \<in> set files" "admitted f" for f
  proof -
    from cov[OF that] obtain k g where "dateMatch (name f) = Some k" "map_of m k = Some g"
      by blast
    moreover from this have "g \<in> set (map snd m)" "dateMatch (name g) = Some k"
      using win by (auto dest!: map_of_SomeD intro: rev_image_eqI)
    ultimately show ?thesis by auto
  qed
  show ?thesis
    unfolding cat files_def[symmetric]
    using 1 2 3 by (simp add: distinct_map_js_sort set_js_sort del: set_map map_map)
qed

theorem fetchClipsList_latest_per_date_witness:
  "distinct (map (\<lambda>g. dateMatch (name g))
     (fetchClipsList codeUnitCompare scenario_parseDate (Some duplicates_listing))) \<and>
   list_all (latest_for_date duplicates_stamp (files_or_empty (Some duplicates_listing)))
     (fetchClipsList codeUnitCompare scenario_parseDate (Some duplicates_listing)) \<and>
   map file_id (fetchClipsList codeUnitCompare scenario_parseDate (Some duplicates_listing))
     = [''b1'', ''b4'']"
proof -
  have times: "\<forall>f\<in>set (files_or_empty (Some duplicates_listing)). admitted f \<longrightarrow>
             (if modifiedTime f \<notin> {None, Some []}
              then Option.bind (modifiedTime f) scenario_parseDate = Some (duplicates_stamp f)
              else if createdTime f \<notin> {None, Some []}
              then Option.bind (createdTime f) scenario_parseDate = Some (duplicates_stamp f)
              else duplicates_stamp f = 0)"
    by (simp add: files_or_empty_def duplicates_listing_def duplicates_stamp_def
        scenario_parseDate_def admitted_def)
  have run: "map file_id (fetchClipsList codeUnitCompare scenario_parseDate (Some duplicates_listing))
     = [''b1'', ''b4'']"
    by code_simp
  from run
    fetchClipsList_latest_per_date [OF times, of codeUnitCompare]
  show ?thesis by (simp only: list_all_iff) blast
qed











section \<open>Properties of the engine\<close>

text \<open>Paths are normalized when joined: dot segments are resolved, also above the directory.\<close>

lemma path_join_normalizes:
  "path_join ''/app/temp'' ''session-7f3c'' = ''/app/temp/session-7f3c''"
  "path_join ''/app/temp/session-7f3c'' ''./music.mp3'' = ''/app/temp/session-7f3c/music.mp3''"
  "path_join ''/app/temp/session-7f3c'' ''../../out.mp4'' = ''/app/out.mp4''"
  "path_join ''temp'' ''../../out.mp4'' = ''../out.mp4''"
  by code_simp+

lemma date_range_None: "\<not> truthy startDate \<or> \<not> truthy endDate \<Longrightarrow> date_range startDate endDate = None"
  by (cases startDate; cases endDate) (auto simp: truthy_def)

lemma downloads_append: "downloads (xs @ ys) = downloads xs @ downloads ys"
  by (induction xs rule: downloads.induct) auto

lemma commands_append: "commands (xs @ ys) = commands xs @ commands ys"
  by (induction xs rule: commands.induct) auto

lemma removals_append: "removals (xs @ ys) = removals xs @ removals ys"
  by (induction xs rule: removals.induct) auto


lemma fst_then_do:
  "fst (then_do m f) = fst m @ (case snd m of Inl err \<Rightarrow> [] | Inr x \<Rightarrow> fst (f x))"
  by (cases m) (auto simp: then_do_def split: sum.splits prod.splits)

lemma snd_then_do:
  "snd (then_do m f) = (case snd m of Inl err \<Rightarrow> Inl err | Inr x \<Rightarrow> snd (f x))"
  by (cases m) (auto simp: then_do_def split: sum.splits prod.splits)

lemma removals_then_do:
  "removals (fst (then_do m f))
     = removals (fst m) @ (case snd m of Inl err \<Rightarrow> [] | Inr x \<Rightarrow> removals (fst (f x)))"
  by (simp add: fst_then_do removals_append split: sum.splits)


lemma download_one_removals: "removals (fst (download_one w sd n i clip)) = []"
  by (simp add: download_one_def Let_def removals_then_do attempt_def split: sum.split)


lemma downloadClips_from_removals: "removals (fst (downloadClips_from w sd n i clips)) = []"
proof (induction clips arbitrary: i)
  case Nil
  show ?case by simp
next
  case (Cons clip rest)
  from download_one_removals[of w sd n i clip] Cons[of "Suc i"] show ?case
    by (auto simp: removals_append split: prod.splits sum.splits)
qed


lemma concatenateVideos_removals: "removals (fst (concatenateVideos w l o' m)) = []"
  by (simp add: concatenateVideos_def Let_def removals_then_do attempt_def split: sum.split)

lemma music_step_quiet:
  "removals (fst (music_step w sd musicData)) = []"
  "written (fst (music_step w sd musicData)) = []"
  "downloads (fst (music_step w sd musicData)) = []"
  "commands (fst (music_step w sd musicData)) = []"
  by (simp_all add: music_step_def saveMusicFromBase64_def Let_def split: option.splits)

lemma compile_try_removals:
  "removals (fst (compile_try w folderId startDate endDate musicData sd)) = []"
  unfolding compile_try_def Let_def
  by (simp add: removals_then_do emit_def throw_def attempt_def downloadClips_def
        downloadClips_from_removals concatenateVideos_removals music_step_quiet
      split: sum.split option.split)

text \<open>
  Claim C9. When at least one of the two bounds is falsy (absent, null or the empty
  string), in particular when exactly one bound is given, \<^verbatim>\<open>compile\<close> filters
  nothing: the catalog is the whole deduplicated listing, and the run is in every
  respect the run with neither bound.
\<close>

theorem compile_one_bound_no_filter:
  assumes "\<not> truthy startDate \<or> \<not> truthy endDate"
  shows "select_clips w response startDate endDate
           = fetchClipsList (String_localeCompare w) (Date_parse w) response \<and>
         compile w folderId startDate endDate musicData = compile w folderId None None musicData"
proof -
  have r: "date_range startDate endDate = None"
    using assms by (rule date_range_None)
  have r0: "date_range None None = None" by simp
  have sel: "select_clips w response startDate endDate = select_clips w response None None" for response
    by (simp only: select_clips_def r r0)
  have out: "outputFileName w startDate endDate = outputFileName w None None"
    by (simp only: outputFileName_def r r0)
  have body: "compile_try w folderId startDate endDate musicData sd
               = compile_try w folderId None None musicData sd" for sd
    by (simp only: compile_try_def r r0 sel out)
  show ?thesis
    by (simp only: compile_def body) (simp add: select_clips_def r)
qed

theorem compile_one_bound_no_filter_witness:
  "select_clips scenario_world (Some scenario_files) (Some ''2024-01-02'') None
      = fetchClipsList (String_localeCompare scenario_world) (Date_parse scenario_world)
          (Some scenario_files) \<and>
   compile scenario_world ''folder1'' (Some ''2024-01-02'') None None
      = compile scenario_world ''folder1'' None None None \<and>
   map name (select_clips scenario_world (Some scenario_files) (Some ''2024-01-02'') None)
      = [''2024-01-01.jpg'', ''2024-01-02.png'']"
proof -
  have one: "\<not> truthy (Some ''2024-01-02'') \<or> \<not> truthy None"
    by (simp add: truthy_def)
  have run: "map name (select_clips scenario_world (Some scenario_files) (Some ''2024-01-02'') None)
      = [''2024-01-01.jpg'', ''2024-01-02.png'']"
    by code_simp
  from compile_one_bound_no_filter [OF one, of scenario_world "Some scenario_files" "''folder1''" None]
    run
  show ?thesis by blast
qed

lemma compile_run:
  assumes "mkdirSync w (sessionDir_of w) = None"
  shows "trace (compile w folderId startDate endDate musicData)
           = Mkdir (sessionDir_of w)
               # fst (compile_try w folderId startDate endDate musicData (sessionDir_of w))
               @ fst (cleanup w (sessionDir_of w))"
    and "outcome (compile w folderId startDate endDate musicData)
           = snd (compile_try w folderId startDate endDate musicData (sessionDir_of w))"
    and "workspace_left (compile w folderId startDate endDate musicData)
           = snd (cleanup w (sessionDir_of w))"
proof -
  obtain ev r where t: "compile_try w folderId startDate endDate musicData (sessionDir_of w) = (ev, r)"
    by (cases "compile_try w folderId startDate endDate musicData (sessionDir_of w)")
  obtain evc left where c: "cleanup w (sessionDir_of w) = (evc, left)"
    by (cases "cleanup w (sessionDir_of w)")
  have run: "compile w folderId startDate endDate musicData
       = \<lparr>trace = Mkdir (sessionDir_of w) # ev @ evc, outcome = r, workspace_left = left\<rparr>"
    using assms t c by (cases r) (simp_all add: compile_def)
  show "trace (compile w folderId startDate endDate musicData)
           = Mkdir (sessionDir_of w)
               # fst (compile_try w folderId startDate endDate musicData (sessionDir_of w))
               @ fst (cleanup w (sessionDir_of w))"
    and "outcome (compile w folderId startDate endDate musicData)
           = snd (compile_try w folderId startDate endDate musicData (sessionDir_of w))"
    and "workspace_left (compile w folderId startDate endDate musicData)
           = snd (cleanup w (sessionDir_of w))"
    unfolding run t c by simp_all
qed

text \<open>
  Claim C6, as the code has it. Once the session directory has been created, every
  run of \<^verbatim>\<open>compile\<close>, whatever its outcome, ends with \<^verbatim>\<open>cleanup\<close>: the
  trace is the creation, the body of the \<^verbatim>\<open>try\<close> block, then the cleanup; the
  body removes nothing; the run's outcome is the body's; the cleanup asks once for
  the recursive removal of the directory if it exists; and the directory is still there
  afterwards exactly when it existed and its removal threw, which \<^verbatim>\<open>cleanup\<close>
  swallows.
\<close>

theorem compile_cleanup_last:
  assumes "mkdirSync w (sessionDir_of w) = None"
  shows "trace (compile w folderId startDate endDate musicData)
           = Mkdir (sessionDir_of w)
               # fst (compile_try w folderId startDate endDate musicData (sessionDir_of w))
               @ fst (cleanup w (sessionDir_of w)) \<and>
         outcome (compile w folderId startDate endDate musicData)
           = snd (compile_try w folderId startDate endDate musicData (sessionDir_of w)) \<and>
         removals (fst (compile_try w folderId startDate endDate musicData (sessionDir_of w))) = [] \<and>
         fst (cleanup w (sessionDir_of w))
           = (if existsSync w (sessionDir_of w) then [RmRecursive (sessionDir_of w)] else []) \<and>
         removals (trace (compile w folderId startDate endDate musicData))
           = (if existsSync w (sessionDir_of w) then [sessionDir_of w] else []) \<and>
         workspace_left (compile w folderId startDate endDate musicData)
           = (existsSync w (sessionDir_of w) \<and> rmSync w (sessionDir_of w) \<noteq> None)"
proof -
  have evc: "fst (cleanup w (sessionDir_of w))
           = (if existsSync w (sessionDir_of w) then [RmRecursive (sessionDir_of w)] else [])"
    and left: "snd (cleanup w (sessionDir_of w))
           = (existsSync w (sessionDir_of w) \<and> rmSync w (sessionDir_of w) \<noteq> None)"
    by (auto simp: cleanup_def split: option.splits)
  show ?thesis
    using compile_try_removals[of w folderId startDate endDate musicData "sessionDir_of w"]
    by (simp add: compile_run[OF assms] removals_append evc left)
qed

theorem compile_cleanup_last_witness:
  "removals (trace (compile scenario_world ''folder1'' None None None))
     = [''/app/temp/session-7f3c''] \<and>
   \<not> workspace_left (compile scenario_world ''folder1'' None None None)"
proof -
  have made: "mkdirSync scenario_world (sessionDir_of scenario_world) = None"
    by (simp add: scenario_world_def)
  have dir: "sessionDir_of scenario_world = ''/app/temp/session-7f3c''"
    by code_simp
  have there: "existsSync scenario_world p" and gone: "rmSync scenario_world p = None" for p
    by (simp_all add: scenario_world_def)
  from compile_cleanup_last [OF made, of "''folder1''" None None None]
  have "removals (trace (compile scenario_world ''folder1'' None None None))
          = (if existsSync scenario_world (sessionDir_of scenario_world)
             then [sessionDir_of scenario_world] else [])"
    and "workspace_left (compile scenario_world ''folder1'' None None None)
          = (existsSync scenario_world (sessionDir_of scenario_world)
             \<and> rmSync scenario_world (sessionDir_of scenario_world) \<noteq> None)"
    by blast+
  then show ?thesis by (simp add: dir there gone)
qed

text \<open>
  The claim as stated fails where the recursive removal throws: the run below
  resolves with its result while the session directory is still on disk.
\<close>

theorem compile_workspace_left_counterexample:
  "workspace_left (compile rm_failing_world ''folder1'' None None None) \<and>
   outcome (compile rm_failing_world ''folder1'' None None None)
     = Inr \<lparr>success = True, fileId = ''up1'',
            fileName = ''365moments-compilation_2024-03-01T10-20-30.mp4'', clipCount = 2\<rparr>"
  by code_simp
lemma downloads_then_do:
  "downloads (fst (then_do m f))
     = downloads (fst m) @ (case snd m of Inl err \<Rightarrow> [] | Inr x \<Rightarrow> downloads (fst (f x)))"
  by (simp add: fst_then_do downloads_append split: sum.splits)

lemma commands_then_do:
  "commands (fst (then_do m f))
     = commands (fst m) @ (case snd m of Inl err \<Rightarrow> [] | Inr x \<Rightarrow> commands (fst (f x)))"
  by (simp add: fst_then_do commands_append split: sum.splits)

lemma cleanup_quiet: "downloads (fst (cleanup w sd)) = []" "commands (fst (cleanup w sd)) = []"
  by (simp_all add: cleanup_def split: option.splits)

text \<open>
  Claim C5. In a run that got its listing: if no catalog item passes the date filter
  the run is rejected with the empty-range error; if some do, but fewer than the
  threshold, with the insufficient-clips error; in both cases the trace holds no
  download and no encoder command. The threshold is 7 when NODE\_ENV is
  \<^verbatim>\<open>production\<close> and 2 otherwise.
\<close>

theorem compile_rejects_before_download:
  assumes "mkdirSync w (sessionDir_of w) = None"
    and "files_list w folderId = Inr response"
  shows "(length (select_clips w response startDate endDate) = 0 \<longrightarrow>
            outcome (compile w folderId startDate endDate musicData)
              = Inl (Error ''No clips found in selected range'')) \<and>
         (0 < length (select_clips w response startDate endDate) \<and>
          length (select_clips w response startDate endDate) < minClips w \<longrightarrow>
            outcome (compile w folderId startDate endDate musicData)
              = Inl (Error (''Need at least '' @ String_nat (minClips w)
                     @ '' clips to compile (found ''
                     @ String_nat (length (select_clips w response startDate endDate)) @ '')''))) \<and>
         (length (select_clips w response startDate endDate) < minClips w \<longrightarrow>
            downloads (trace (compile w folderId startDate endDate musicData)) = [] \<and>
            commands (trace (compile w folderId startDate endDate musicData)) = []) \<and>
         minClips w = (if NODE_ENV w = Some ''production'' then 7 else 2)"
proof -
  let ?clips = "select_clips w response startDate endDate"
  let ?body = "compile_try w folderId startDate endDate musicData (sessionDir_of w)"
  have empty: "snd ?body = Inl (Error ''No clips found in selected range'')"
    if "length ?clips = 0"
    using that assms(2)
    by (simp add: compile_try_def Let_def snd_then_do emit_def throw_def)
  have few: "snd ?body = Inl (Error (''Need at least '' @ String_nat (minClips w)
                     @ '' clips to compile (found '' @ String_nat (length ?clips) @ '')''))"
    if "0 < length ?clips" "length ?clips < minClips w"
    using that assms(2)
    by (simp add: compile_try_def Let_def snd_then_do emit_def throw_def)
  have quiet: "downloads (fst ?body) = [] \<and> commands (fst ?body) = []"
    if "length ?clips < minClips w"
    using that assms(2)
    by (simp add: compile_try_def Let_def downloads_then_do commands_then_do emit_def throw_def
        split: option.split)
  show ?thesis
    using empty few quiet
    by (simp add: compile_run[OF assms(1)] downloads_append commands_append cleanup_quiet
        minClips_def)
qed


theorem compile_rejects_before_download_witness:
  "outcome (compile scenario_world ''folder1'' (Some ''2024-01-02'') (Some ''2024-01-31'') None)
     = Inl (Error ''Need at least 2 clips to compile (found 1)'') \<and>
   downloads (trace (compile scenario_world ''folder1'' (Some ''2024-01-02'') (Some ''2024-01-31'') None))
     = [] \<and>
   outcome (compile scenario_world ''folder1'' (Some ''2025-01-01'') (Some ''2025-12-31'') None)
     = Inl (Error ''No clips found in selected range'')"
proof -
  have made: "mkdirSync scenario_world (sessionDir_of scenario_world) = None"
    by (simp add: scenario_world_def)
  have listed: "files_list scenario_world ''folder1'' = Inr (Some scenario_files)"
    by (simp add: scenario_world_def)
  have one: "length (select_clips scenario_world (Some scenario_files)
                (Some ''2024-01-02'') (Some ''2024-01-31'')) = 1"
    by code_simp
  have none: "length (select_clips scenario_world (Some scenario_files)
                (Some ''2025-01-01'') (Some ''2025-12-31'')) = 0"
    by code_simp
  have least: "minClips scenario_world = 2"
    by (simp add: minClips_def scenario_world_def)
  have msg: "''Need at least '' @ String_nat 2 @ '' clips to compile (found '' @ String_nat 1 @ '')''
                = ''Need at least 2 clips to compile (found 1)''"
    by code_simp
  from compile_rejects_before_download [OF made listed, of "Some ''2024-01-02''" "Some ''2024-01-31''" None]
  have a: "outcome (compile scenario_world ''folder1'' (Some ''2024-01-02'') (Some ''2024-01-31'') None)
     = Inl (Error ''Need at least 2 clips to compile (found 1)'')"
    and b: "downloads (trace (compile scenario_world ''folder1'' (Some ''2024-01-02'')
              (Some ''2024-01-31'') None)) = []"
    using one least msg by simp_all
  from compile_rejects_before_download [OF made listed, of "Some ''2025-01-01''" "Some ''2025-12-31''" None]
  have c: "outcome (compile scenario_world ''folder1'' (Some ''2025-01-01'') (Some ''2025-12-31'') None)
     = Inl (Error ''No clips found in selected range'')"
    using none by simp
  from a b c show ?thesis by simp
qed

lemma concatenateVideos_unavailable:
  assumes "mp = None \<or> (\<exists>p. mp = Some p \<and> \<not> existsSync w p)"
  shows "concatenateVideos w l out mp = concatenateVideos w l out None"
proof -
  have "concatenateVideos_args (existsSync w) l out mp
          = concatenateVideos_args (existsSync w) l out None"
    using assms by (auto simp: concatenateVideos_args_def)
  then show ?thesis by (simp add: concatenateVideos_def)
qed

lemma saveMusic_unavailable:
  assumes "writeFileSync w (path_join sd ''music.mp3'') \<noteq> None
           \<or> \<not> existsSync w (path_join sd ''music.mp3'')"
  shows "snd (saveMusicFromBase64 w sd) = None
         \<or> (\<exists>p. snd (saveMusicFromBase64 w sd) = Some p \<and> \<not> existsSync w p)"
  using assms by (auto simp: saveMusicFromBase64_def Let_def split: option.splits)

lemma same_run_refl: "same_run a a"
  by (simp add: same_run_def)

lemma same_run_then_do:
  "(\<And>x. same_run (f x) (g x)) \<Longrightarrow> same_run (then_do m f) (then_do m g)"
  by (auto simp: same_run_def snd_then_do commands_then_do split: sum.splits)

lemma same_run_if:
  "(c \<Longrightarrow> same_run a b) \<Longrightarrow> (\<not> c \<Longrightarrow> same_run a' b')
     \<Longrightarrow> same_run (if c then a else a') (if c then b else b')"
  by simp

lemma same_run_skip:
  assumes "commands ev = []" "f x = g y"
  shows "same_run (then_do (ev, Inr x) f) (then_do ([], Inr y) g)"
  using assms by (simp add: same_run_def then_do_def commands_append split: prod.splits)

lemma compile_try_music_unavailable:
  assumes "writeFileSync w (path_join sd ''music.mp3'') \<noteq> None
           \<or> \<not> existsSync w (path_join sd ''music.mp3'')"
  shows "same_run (compile_try w folderId startDate endDate musicData sd)
           (compile_try w folderId startDate endDate None sd)"
proof -
  have "snd (music_step w sd musicData) = Inr None
        \<or> (\<exists>p. snd (music_step w sd musicData) = Inr (Some p) \<and> \<not> existsSync w p)"
    using saveMusic_unavailable[OF assms]
    by (cases "saveMusicFromBase64 w sd") (auto simp: music_step_def)
  then obtain mp where "snd (music_step w sd musicData) = Inr mp"
    and mp: "mp = None \<or> (\<exists>p. mp = Some p \<and> \<not> existsSync w p)"
    by blast
  then have ms: "music_step w sd musicData = (fst (music_step w sd musicData), Inr mp)"
    by (metis prod.collapse)
  have none: "music_step w sd None = ([], Inr None)"
    by (simp add: music_step_def truthy_def)
  have cc: "concatenateVideos w l out mp = concatenateVideos w l out None" for l out
    using mp by (rule concatenateVideos_unavailable)
  show ?thesis
    unfolding compile_try_def Let_def
    apply (intro same_run_then_do same_run_if)
      apply (rule same_run_refl)
     apply (rule same_run_refl)
    apply (subst ms)
    apply (subst none)
    apply (rule same_run_skip)
     apply (rule music_step_quiet)
    apply (simp only: cc)
    done
qed

text \<open>
  Claim C10. When a music track is supplied but saving it fails (the helper returns
  null), or the saved file is not there when the concatenation looks for it, the run
  does not fail for that: it runs the very encoder commands, and ends with the very
  outcome, of the run with no music supplied, the concatenation taking its no-music
  branch. The witness is a run that completes successfully this way.
\<close>

theorem compile_music_unavailable:
  assumes "truthy musicData"
    and "writeFileSync w (path_join (sessionDir_of w) ''music.mp3'') \<noteq> None
         \<or> \<not> existsSync w (path_join (sessionDir_of w) ''music.mp3'')"
  shows "outcome (compile w folderId startDate endDate musicData)
           = outcome (compile w folderId startDate endDate None) \<and>
         commands (trace (compile w folderId startDate endDate musicData))
           = commands (trace (compile w folderId startDate endDate None)) \<and>
         concatenateVideos_args (existsSync w) listFile outputPath
             (snd (saveMusicFromBase64 w (sessionDir_of w)))
           = concatenateVideos_args (existsSync w) listFile outputPath None"
proof -
  have args: "concatenateVideos_args (existsSync w) listFile outputPath
             (snd (saveMusicFromBase64 w (sessionDir_of w)))
           = concatenateVideos_args (existsSync w) listFile outputPath None"
    using saveMusic_unavailable[OF assms(2)]
    by (auto simp: concatenateVideos_args_def)
  show ?thesis
  proof (cases "mkdirSync w (sessionDir_of w)")
    case (Some err)
    then show ?thesis using args by (simp add: compile_def)
  next
    case None
    from compile_try_music_unavailable[OF assms(2), of folderId startDate endDate musicData]
    show ?thesis
      using args by (simp add: compile_run[OF None] commands_append same_run_def)
  qed
qed

theorem compile_music_unavailable_witness:
  "outcome (compile music_failing_world ''folder1'' None None (Some ''data:audio/mpeg;base64,SUQz''))
     = Inr \<lparr>success = True, fileId = ''up1'',
            fileName = ''365moments-compilation_2024-03-01T10-20-30.mp4'', clipCount = 2\<rparr> \<and>
   last (commands (trace (compile music_failing_world ''folder1'' None None
           (Some ''data:audio/mpeg;base64,SUQz''))))
     = concatenateVideos_args (\<lambda>p. True) ''/app/temp/session-7f3c/filelist.txt''
         ''/app/temp/session-7f3c/365moments-compilation_2024-03-01T10-20-30.mp4'' None"
proof -
  have given: "truthy (Some ''data:audio/mpeg;base64,SUQz'')"
    by (simp add: truthy_def)
  have fails: "writeFileSync music_failing_world
                 (path_join (sessionDir_of music_failing_world) ''music.mp3'') \<noteq> None
               \<or> \<not> existsSync music_failing_world
                 (path_join (sessionDir_of music_failing_world) ''music.mp3'')"
    by code_simp
  have run: "outcome (compile music_failing_world ''folder1'' None None None)
     = Inr \<lparr>success = True, fileId = ''up1'',
            fileName = ''365moments-compilation_2024-03-01T10-20-30.mp4'', clipCount = 2\<rparr>"
    by code_simp
  have cmd: "last (commands (trace (compile music_failing_world ''folder1'' None None None)))
     = concatenateVideos_args (\<lambda>p. True) ''/app/temp/session-7f3c/filelist.txt''
         ''/app/temp/session-7f3c/365moments-compilation_2024-03-01T10-20-30.mp4'' None"
    by code_simp
  from compile_music_unavailable [OF given fails, of "''folder1''" None None] run cmd
  show ?thesis by simp
qed


















section \<open>Properties of the encoder commands\<close>

lemma String_int_1920: "String_int 1920 = ''1920''"
  by (simp add: String_int_def digits.simps)

lemma String_int_1080: "String_int 1080 = ''1080''"
  by (simp add: String_int_def digits.simps)

lemma scale_pad_default:
  "scale_pad 1920 1080
     = ''scale=1920:1080:force_original_aspect_ratio=decrease,pad=1920:1080:(ow-iw)/2:(oh-ih)/2:black''"
  by (simp add: scale_pad_def String_int_1920 String_int_1080)

lemma frame_of_filters_default:
  "frame_of_filters ''scale=1920:1080:force_original_aspect_ratio=decrease,pad=1920:1080:(ow-iw)/2:(oh-ih)/2:black''
     = Some (1920, 1080)"
  "frame_of_filters ''scale=1920:1080:force_original_aspect_ratio=decrease,pad=1920:1080:(ow-iw)/2:(oh-ih)/2:black,setsar=1''
     = Some (1920, 1080)"
  by code_simp+

lemma decimal_values: "decimal ''1'' = Some 1" "decimal ''30'' = Some 30"
  by code_simp+


lemma parse_normalizeVideoToOneSecond_args:
  assumes "outputPath \<noteq> [] \<and> hd outputPath \<noteq> CHR ''-''"
  shows "parse_command (normalizeVideoToOneSecond_args inputPath outputPath 1920 1080)
     = Some \<lparr>cmd_inputs = [(inputPath, [])],
             cmd_options =
               [(''-t'', ''1''),
                (''-vf'', ''scale=1920:1080:force_original_aspect_ratio=decrease,pad=1920:1080:(ow-iw)/2:(oh-ih)/2:black,setsar=1''),
                (''-c:v'', ''libx264''), (''-preset'', ''fast''), (''-crf'', ''23''),
                (''-c:a'', ''aac''), (''-b:a'', ''128k''), (''-r'', ''30''),
                (''-pix_fmt'', ''yuv420p'')],
             cmd_flags = [''-y''], cmd_output = outputPath\<rparr>"
  using assms
  by (simp add: parse_command_def normalizeVideoToOneSecond_args_def scale_pad_default flags_def
      input_options_def output_options_def)

lemma parse_convertImageToVideo_args:
  assumes "outputPath \<noteq> [] \<and> hd outputPath \<noteq> CHR ''-''"
  shows "parse_command (convertImageToVideo_args imagePath outputPath 1920 1080)
     = Some \<lparr>cmd_inputs = [(imagePath, [(''-loop'', ''1'')])],
             cmd_options =
               [(''-c:v'', ''libx264''), (''-t'', ''1''), (''-pix_fmt'', ''yuv420p''),
                (''-vf'', ''scale=1920:1080:force_original_aspect_ratio=decrease,pad=1920:1080:(ow-iw)/2:(oh-ih)/2:black''),
                (''-r'', ''30'')],
             cmd_flags = [''-y''], cmd_output = outputPath\<rparr>"
  using assms
  by (simp add: parse_command_def convertImageToVideo_args_def scale_pad_default flags_def
      input_options_def output_options_def)



lemma documented_video:
  assumes "has_pictures (holds inputPath) \<and> \<not> is_list (holds inputPath)"
    "1000 \<le> length_ms (holds inputPath)"
  shows "documented \<lparr>cmd_inputs = [(inputPath, [])],
             cmd_options =
               [(''-t'', ''1''),
                (''-vf'', ''scale=1920:1080:force_original_aspect_ratio=decrease,pad=1920:1080:(ow-iw)/2:(oh-ih)/2:black,setsar=1''),
                (''-c:v'', ''libx264''), (''-preset'', ''fast''), (''-crf'', ''23''),
                (''-c:a'', ''aac''), (''-b:a'', ''128k''), (''-r'', ''30''),
                (''-pix_fmt'', ''yuv420p'')],
             cmd_flags = [''-y''], cmd_output = outputPath\<rparr> holds
     = Some \<lparr>out_video = Some inputPath,
             out_audio = (if has_sound (holds inputPath) then Some inputPath else None),
             out_audio_looped = False, out_ms = 1000, out_frame = Some (1920, 1080),
             out_rate = Some 30, out_pix_fmt = Some ''yuv420p''\<rparr>"
  using assms
  by (simp add: documented_def selected_def input_span_def optional_def decimal_values
      frame_of_filters_default readable_def)

lemma documented_image:
  assumes "has_pictures (holds imagePath) \<and> \<not> is_list (holds imagePath)"
    "is_still (holds imagePath)"
  shows "documented \<lparr>cmd_inputs = [(imagePath, [(''-loop'', ''1'')])],
             cmd_options =
               [(''-c:v'', ''libx264''), (''-t'', ''1''), (''-pix_fmt'', ''yuv420p''),
                (''-vf'', ''scale=1920:1080:force_original_aspect_ratio=decrease,pad=1920:1080:(ow-iw)/2:(oh-ih)/2:black''),
                (''-r'', ''30'')],
             cmd_flags = [''-y''], cmd_output = outputPath\<rparr> holds
     = Some \<lparr>out_video = Some imagePath,
             out_audio = (if has_sound (holds imagePath) then Some imagePath else None),
             out_audio_looped = False, out_ms = 1000, out_frame = Some (1920, 1080),
             out_rate = Some 30, out_pix_fmt = Some ''yuv420p''\<rparr>"
  using assms
  by (simp add: documented_def selected_def input_span_def optional_def decimal_values
      frame_of_filters_default readable_def)



lemma reference_follows_manual: "follows_manual reference_encoder"
  by (simp add: follows_manual_def reference_encoder_def)

lemma follows_manualD:
  assumes "follows_manual encoder" "parse_command args = Some c" "documented c holds = Some p"
  shows "encoder args holds = p"
  using assms unfolding follows_manual_def by blast

lemma download_one_commands:
  "commands (fst (download_one w sd n i clip))
     = (if files_get w (file_id clip) (downloadPath_of sd i clip) = None
        then [segment_command sd i clip] else [])"
  by (simp add: download_one_def Let_def commands_then_do attempt_def segment_command_def
        segmentPath_of_def
      split: option.split sum.split)

text \<open>
  Claim C3, as the code has it. Normalizing a downloaded clip runs one encoder
  command, chosen by the clip's extension. Take an encoder that follows its manual,
  a downloaded media file with pictures that is a still image on the image path or
  plays at least one second on the video path, and a segment path that is not read
  as an option. Then the command leaves a segment of exactly 1000 milliseconds, 1920
  by 1080, 30 frames per second, yuv420p, showing the source. The segment has an
  audio track exactly when the source has sound: nothing adds a silent one. The
  video command asks for AAC at 128k, the fast preset, CRF 23 and \<^verbatim>\<open>setsar=1\<close>;
  the image command loops the still image and asks for none of these.
\<close>

theorem normalized_segment:
  assumes "follows_manual encoder"
    and "has_pictures (holds (downloadPath_of sessionDir i clip))
         \<and> \<not> is_list (holds (downloadPath_of sessionDir i clip))"
    and "if isImage (name clip) then is_still (holds (downloadPath_of sessionDir i clip))
         else 1000 \<le> length_ms (holds (downloadPath_of sessionDir i clip))"
    and "segmentPath_of sessionDir i clip \<noteq> [] \<and> hd (segmentPath_of sessionDir i clip) \<noteq> CHR ''-''"
  shows "commands (fst (download_one w sessionDir n i clip))
           = (if files_get w (file_id clip) (downloadPath_of sessionDir i clip) = None
              then [segment_command sessionDir i clip] else []) \<and>
         encoder (segment_command sessionDir i clip) holds
           = \<lparr>out_video = Some (downloadPath_of sessionDir i clip),
              out_audio = (if has_sound (holds (downloadPath_of sessionDir i clip))
                           then Some (downloadPath_of sessionDir i clip) else None),
              out_audio_looped = False, out_ms = 1000, out_frame = Some (1920, 1080),
              out_rate = Some 30, out_pix_fmt = Some ''yuv420p''\<rparr> \<and>
         parse_command (segment_command sessionDir i clip)
           = Some (if isImage (name clip)
                   then \<lparr>cmd_inputs = [(downloadPath_of sessionDir i clip, [(''-loop'', ''1'')])],
                   cmd_options =
                     [(''-c:v'', ''libx264''), (''-t'', ''1''), (''-pix_fmt'', ''yuv420p''),
                      (''-vf'', ''scale=1920:1080:force_original_aspect_ratio=decrease,pad=1920:1080:(ow-iw)/2:(oh-ih)/2:black''),
                      (''-r'', ''30'')],
                   cmd_flags = [''-y''], cmd_output = segmentPath_of sessionDir i clip\<rparr>
                   else \<lparr>cmd_inputs = [(downloadPath_of sessionDir i clip, [])],
                   cmd_options =
                     [(''-t'', ''1''),
                      (''-vf'', ''scale=1920:1080:force_original_aspect_ratio=decrease,pad=1920:1080:(ow-iw)/2:(oh-ih)/2:black,setsar=1''),
                      (''-c:v'', ''libx264''), (''-preset'', ''fast''), (''-crf'', ''23''),
                      (''-c:a'', ''aac''), (''-b:a'', ''128k''), (''-r'', ''30''),
                      (''-pix_fmt'', ''yuv420p'')],
                   cmd_flags = [''-y''], cmd_output = segmentPath_of sessionDir i clip\<rparr>)"
proof (cases "isImage (name clip)")
  case True
  with assms(3) have still: "is_still (holds (downloadPath_of sessionDir i clip))"
    by simp
  from True have cmd: "segment_command sessionDir i clip
      = convertImageToVideo_args (downloadPath_of sessionDir i clip)
          (segmentPath_of sessionDir i clip) 1920 1080"
    by (simp add: segment_command_def)
  note read = parse_convertImageToVideo_args[OF assms(4), of "downloadPath_of sessionDir i clip"]
  note made = documented_image[where holds = holds
      and imagePath = "downloadPath_of sessionDir i clip"
      and outputPath = "segmentPath_of sessionDir i clip", OF assms(2) still]
  from follows_manualD[OF assms(1) read made] read True
  show ?thesis
    by (simp only: cmd download_one_commands[of w sessionDir n i clip] if_True simp_thms)
next
  case False
  with assms(3) have long: "1000 \<le> length_ms (holds (downloadPath_of sessionDir i clip))"
    by simp
  from False have cmd: "segment_command sessionDir i clip
      = normalizeVideoToOneSecond_args (downloadPath_of sessionDir i clip)
          (segmentPath_of sessionDir i clip) 1920 1080"
    by (simp add: segment_command_def)
  note read = parse_normalizeVideoToOneSecond_args[OF assms(4), of "downloadPath_of sessionDir i clip"]
  note made = documented_video[where holds = holds
      and inputPath = "downloadPath_of sessionDir i clip"
      and outputPath = "segmentPath_of sessionDir i clip", OF assms(2) long]
  from follows_manualD[OF assms(1) read made] read False
  show ?thesis
    by (simp only: cmd download_one_commands[of w sessionDir n i clip] if_False simp_thms)
qed

theorem normalized_segment_witness:
  "reference_encoder
     (segment_command ''/app/temp/session-7f3c'' 0
        \<lparr>file_id = ''a2'', name = ''2024-01-01.jpg'', mimeType = ''image/jpeg'',
           createdTime = None, modifiedTime = None\<rparr>) scenario_media
     = \<lparr>out_video = Some ''/app/temp/session-7f3c/0000-2024-01-01.jpg'', out_audio = None,
        out_audio_looped = False, out_ms = 1000, out_frame = Some (1920, 1080),
        out_rate = Some 30, out_pix_fmt = Some ''yuv420p''\<rparr> \<and>
   reference_encoder
     (segment_command ''/app/temp/session-7f3c'' 1
        \<lparr>file_id = ''a4'', name = ''2024-01-02.mp4'', mimeType = ''video/mp4'',
           createdTime = None, modifiedTime = None\<rparr>) scenario_media
     = \<lparr>out_video = Some ''/app/temp/session-7f3c/0001-2024-01-02.mp4'',
        out_audio = Some ''/app/temp/session-7f3c/0001-2024-01-02.mp4'',
        out_audio_looped = False, out_ms = 1000, out_frame = Some (1920, 1080),
        out_rate = Some 30, out_pix_fmt = Some ''yuv420p''\<rparr>"
proof -
  let ?image = "\<lparr>file_id = ''a2'', name = ''2024-01-01.jpg'', mimeType = ''image/jpeg'',
                   createdTime = None, modifiedTime = None\<rparr>"
  let ?video = "\<lparr>file_id = ''a4'', name = ''2024-01-02.mp4'', mimeType = ''video/mp4'',
                   createdTime = None, modifiedTime = None\<rparr>"
  have image: "isImage (name ?image)"
    "downloadPath_of ''/app/temp/session-7f3c'' 0 ?image = ''/app/temp/session-7f3c/0000-2024-01-01.jpg''"
    "segmentPath_of ''/app/temp/session-7f3c'' 0 ?image = ''/app/temp/session-7f3c/0000-2024-01-01.mp4''"
    by code_simp+
  have video: "\<not> isImage (name ?video)"
    "downloadPath_of ''/app/temp/session-7f3c'' 1 ?video = ''/app/temp/session-7f3c/0001-2024-01-02.mp4''"
    "segmentPath_of ''/app/temp/session-7f3c'' 1 ?video = ''/app/temp/session-7f3c/0001-2024-01-02-norm.mp4''"
    by code_simp+
  have held: "scenario_media ''/app/temp/session-7f3c/0000-2024-01-01.jpg''
      = \<lparr>is_list = False, has_pictures = True, is_still = True, has_sound = False,
         length_ms = 40\<rparr>"
    "scenario_media ''/app/temp/session-7f3c/0001-2024-01-02.mp4''
      = \<lparr>is_list = False, has_pictures = True, is_still = False, has_sound = True,
         length_ms = 3000\<rparr>"
    by (simp_all add: scenario_media_def)
  have "encoder (segment_command ''/app/temp/session-7f3c'' 0 ?image) scenario_media
     = \<lparr>out_video = Some ''/app/temp/session-7f3c/0000-2024-01-01.jpg'', out_audio = None,
        out_audio_looped = False, out_ms = 1000, out_frame = Some (1920, 1080),
        out_rate = Some 30, out_pix_fmt = Some ''yuv420p''\<rparr>"
    if "follows_manual encoder" for encoder
    using normalized_segment [where holds = scenario_media
        and sessionDir = "''/app/temp/session-7f3c''" and i = 0 and clip = ?image, OF that] image
    by (simp add: held)
  moreover have "encoder (segment_command ''/app/temp/session-7f3c'' 1 ?video) scenario_media
     = \<lparr>out_video = Some ''/app/temp/session-7f3c/0001-2024-01-02.mp4'',
        out_audio = Some ''/app/temp/session-7f3c/0001-2024-01-02.mp4'',
        out_audio_looped = False, out_ms = 1000, out_frame = Some (1920, 1080),
        out_rate = Some 30, out_pix_fmt = Some ''yuv420p''\<rparr>"
    if "follows_manual encoder" for encoder
    using normalized_segment [where holds = scenario_media
        and sessionDir = "''/app/temp/session-7f3c''" and i = 1 and clip = ?video, OF that] video
    by (simp add: held)
  ultimately show ?thesis
    using reference_follows_manual by blast
qed

text \<open>
  The claim as stated fails on the image path: the command has the still image as
  its only input, so the segment has no audio track, silent or not; and the video
  command's audio codec, bit rate, preset, quality and \<^verbatim>\<open>setsar\<close> are missing from
  the image command, so the segments are not encoded with identical parameters.
\<close>

theorem normalizers_differ_counterexample:
  "out_audio (reference_encoder
      (segment_command ''/app/temp/session-7f3c'' 0
         \<lparr>file_id = ''a2'', name = ''2024-01-01.jpg'', mimeType = ''image/jpeg'',
            createdTime = None, modifiedTime = None\<rparr>) scenario_media) = None \<and>
   parse_command (convertImageToVideo_args ''/app/temp/session-7f3c/0000-2024-01-01.jpg'' ''/app/temp/session-7f3c/0000-2024-01-01.mp4'' 1920 1080)
     = Some \<lparr>cmd_inputs = [(''/app/temp/session-7f3c/0000-2024-01-01.jpg'', [(''-loop'', ''1'')])],
                   cmd_options =
                     [(''-c:v'', ''libx264''), (''-t'', ''1''), (''-pix_fmt'', ''yuv420p''),
                      (''-vf'', ''scale=1920:1080:force_original_aspect_ratio=decrease,pad=1920:1080:(ow-iw)/2:(oh-ih)/2:black''),
                      (''-r'', ''30'')],
                   cmd_flags = [''-y''], cmd_output = ''/app/temp/session-7f3c/0000-2024-01-01.mp4''\<rparr> \<and>
   parse_command (normalizeVideoToOneSecond_args ''/app/temp/session-7f3c/0001-2024-01-02.mp4'' ''/app/temp/session-7f3c/0001-2024-01-02-norm.mp4'' 1920 1080)
     = Some \<lparr>cmd_inputs = [(''/app/temp/session-7f3c/0001-2024-01-02.mp4'', [])],
                   cmd_options =
                     [(''-t'', ''1''),
                      (''-vf'', ''scale=1920:1080:force_original_aspect_ratio=decrease,pad=1920:1080:(ow-iw)/2:(oh-ih)/2:black,setsar=1''),
                      (''-c:v'', ''libx264''), (''-preset'', ''fast''), (''-crf'', ''23''),
                      (''-c:a'', ''aac''), (''-b:a'', ''128k''), (''-r'', ''30''),
                      (''-pix_fmt'', ''yuv420p'')],
                   cmd_flags = [''-y''], cmd_output = ''/app/temp/session-7f3c/0001-2024-01-02-norm.mp4''\<rparr> \<and>
   map_option cmd_options (parse_command (convertImageToVideo_args ''/app/temp/session-7f3c/0000-2024-01-01.jpg'' ''/app/temp/session-7f3c/0000-2024-01-01.mp4'' 1920 1080))
     \<noteq> map_option cmd_options
         (parse_command (normalizeVideoToOneSecond_args ''/app/temp/session-7f3c/0001-2024-01-02.mp4'' ''/app/temp/session-7f3c/0001-2024-01-02-norm.mp4'' 1920 1080))"
  by code_simp


section \<open>Properties of the job tracker\<close>

lemma write_job_keys: "distinct (map fst jobs) \<Longrightarrow> distinct (map fst (write_job jobs u i f))"
  by (auto simp: write_job_def distinct_update split: option.splits)

lemma post_compile_keys:
  "distinct (map fst jobs) \<Longrightarrow> distinct (map fst (jobs_after (post_compile srv jobs req)))"
  by (auto simp: post_compile_def Let_def distinct_update split: sum.splits)

lemma reachable_keys: "reachable jobs \<Longrightarrow> distinct (map fst jobs)"
proof (induction rule: reachable.induct)
  case start
  show ?case by simp
next
  case (submit jobs srv req)
  from submit.IH show ?case by (rule post_compile_keys)
next
  case (report jobs userId jobId msg)
  then show ?case by (simp add: on_progress_def write_job_keys)
next
  case (settle jobs userId jobId settled time)
  then show ?case by (simp add: on_settled_def write_job_keys)
next
  case (clear jobs req)
  then show ?case by (simp add: delete_status_def distinct_delete)
qed

lemma tracked_le_one: "distinct (map fst jobs) \<Longrightarrow> tracked jobs u \<le> 1"
proof (induction jobs)
  case Nil
  show ?case by (simp add: tracked_def)
next
  case (Cons p jobs)
  obtain k j where p: "p = (k, j)" by (cases p)
  show ?case
  proof (cases "k = u")
    case True
    with Cons.prems p have "u \<notin> fst ` set jobs" by auto
    then have "filter (\<lambda>(u', j). u' = u) jobs = []"
      by (force simp: filter_empty_conv)
    with True p show ?thesis by (simp add: tracked_def)
  next
    case False
    with Cons p show ?thesis by (simp add: tracked_def)
  qed
qed

lemma busy_registry_reachable: "reachable busy_registry"
proof -
  let ?srv = "ready_service\<lparr>new_jobId := ''j-1'', now := ''2024-03-01T10:20:30.456Z''\<rparr>"
  have "busy_registry
          = on_progress (jobs_after (post_compile ?srv [] ana_request))
              ''ana@example.org'' ''j-1'' ''Downloading 1/2...''"
    by (simp add: busy_registry_def post_compile_def ready_service_def ana_request_def
        userId_of_def on_progress_def write_job_def Let_def)
  moreover have "reachable (on_progress (jobs_after (post_compile ?srv [] ana_request))
              ''ana@example.org'' ''j-1'' ''Downloading 1/2...'')"
    by (intro reachable.report reachable.submit reachable.start)
  ultimately show ?thesis by simp
qed

text \<open>
  Claim C2, as the code has it. In every registry the service can reach, at most one
  job is tracked per user identity, before and after a submission. A submission by
  a user whose tracked job is compiling leaves the registry as it is and starts no
  run; it is answered with the already-compiling rejection carrying the tracked job's
  identifier when the folder lookup that comes first returns, and with a server error
  when that lookup throws.
\<close>

theorem post_compile_while_compiling:
  assumes "reachable jobs"
  shows "tracked jobs u \<le> 1 \<and>
         tracked (jobs_after (post_compile srv jobs req)) u \<le> 1 \<and>
         (\<forall>j. map_of jobs (userId_of req) = Some j \<and> status j = Compiling \<longrightarrow>
            jobs_after (post_compile srv jobs req) = jobs \<and>
            run_started (post_compile srv jobs req) = None \<and>
            answer (post_compile srv jobs req)
              = (case getOrCreateFolder srv of
                   Inr folderId \<Rightarrow> AlreadyCompiling (job_id j)
                 | Inl err \<Rightarrow>
                     ServerError (case err of
                                    Error m \<Rightarrow> if m \<noteq> [] then m else ''Compilation failed'')))"
proof -
  have "tracked jobs u \<le> 1"
    using assms by (intro tracked_le_one reachable_keys)
  moreover have "tracked (jobs_after (post_compile srv jobs req)) u \<le> 1"
    using assms by (intro tracked_le_one reachable_keys reachable.submit)
  moreover have "jobs_after (post_compile srv jobs req) = jobs \<and>
            run_started (post_compile srv jobs req) = None \<and>
            answer (post_compile srv jobs req)
              = (case getOrCreateFolder srv of
                   Inr folderId \<Rightarrow> AlreadyCompiling (job_id j)
                 | Inl err \<Rightarrow>
                     ServerError (case err of
                                    Error m \<Rightarrow> if m \<noteq> [] then m else ''Compilation failed''))"
    if "map_of jobs (userId_of req) = Some j \<and> status j = Compiling" for j
    using that by (simp add: post_compile_def Let_def split: sum.splits)
  ultimately show ?thesis by blast
qed

theorem post_compile_while_compiling_witness:
  "answer (post_compile ready_service busy_registry ana_request) = AlreadyCompiling ''j-1'' \<and>
   jobs_after (post_compile ready_service busy_registry ana_request) = busy_registry \<and>
   run_started (post_compile ready_service busy_registry ana_request) = None \<and>
   tracked busy_registry ''ana@example.org'' \<le> 1"
proof -
  have busy: "map_of busy_registry (userId_of ana_request)
                = Some (snd (hd busy_registry)) \<and> status (snd (hd busy_registry)) = Compiling"
    by (simp add: busy_registry_def ana_request_def userId_of_def)
  have found: "getOrCreateFolder ready_service = Inr ''folder1''"
    by (simp add: ready_service_def)
  have ident: "job_id (snd (hd busy_registry)) = ''j-1''"
    by (simp add: busy_registry_def)
  from post_compile_while_compiling [OF busy_registry_reachable, of "''ana@example.org''"
      ready_service ana_request] busy
  show ?thesis by (simp add: found ident)
qed

text \<open>
  The claim as stated fails where the folder lookup throws: the user's job is
  compiling, and the submission is answered with a server error, not with the
  already-compiling rejection.
\<close>

theorem post_compile_answer_counterexample:
  "reachable busy_registry \<and>
   map_of busy_registry (userId_of ana_request) = Some (snd (hd busy_registry)) \<and>
   status (snd (hd busy_registry)) = Compiling \<and>
   answer (post_compile drive_down_service busy_registry ana_request)
     = ServerError ''Drive API unreachable''"
  using busy_registry_reachable
  by (simp add: busy_registry_def ana_request_def userId_of_def post_compile_def
      drive_down_service_def ready_service_def)

end
